theory Spec2Isabelle
  imports Complex_Main "HOL-Library.Multiset" "HOL-Library.Log_Nat"
begin

section \<open>SuperCombo: the generate-and-score pipeline of \<open>netlify/functions/agent.js\<close>\<close>

text \<open>
  The development follows the order of the source file: candidate generation
  (\<open>applyTemplate\<close>, \<open>generateCombinations\<close>), batching (\<open>chunkArray\<close>), score
  reconciliation (\<open>scoreSingleBatch\<close>, \<open>scoreMultiPresetBatch\<close>, \<open>processMultiResult\<close>)
  and the ranking step of the handler.

  Conventions of the embedding.
  \<^item> A JavaScript string is a \<open>string\<close>; the characters that matter to the code are the
    ASCII letters, digits, the hyphen and the dot.
  \<^item> A JavaScript number is a double, kept as the \<open>real\<close> it stands for. Comparison,
    \<open>Math.min\<close>, \<open>Math.max\<close> and \<open>Math.round\<close> are exact on doubles; a sum, a product or a
    quotient is the double nearest to the exact result (\<open>nearestDouble\<close>).
  \<^item> An optional property of a request object is an \<open>option\<close>: \<open>None\<close> is \<open>undefined\<close>.
\<close>

subsection \<open>Strings\<close>

definition upperAlphabet :: string where
  "upperAlphabet = ''ABCDEFGHIJKLMNOPQRSTUVWXYZ''"

definition lowerAlphabet :: string where
  "lowerAlphabet = ''abcdefghijklmnopqrstuvwxyz''"

definition digitChars :: string where
  "digitChars = ''0123456789''"

text \<open>\<open>String.prototype.toLowerCase\<close>, character by character.\<close>

definition toLowerChar :: "char \<Rightarrow> char" where
  "toLowerChar c = (case map_of (zip upperAlphabet lowerAlphabet) c of Some l \<Rightarrow> l | None \<Rightarrow> c)"

definition toLowerCase :: "string \<Rightarrow> string" where
  "toLowerCase s = map toLowerChar s"

text \<open>\<open>String.prototype.includes\<close>: \<open>needle\<close> occurs in \<open>s\<close> as a contiguous block.\<close>

fun startsWith :: "string \<Rightarrow> string \<Rightarrow> bool" where
  "startsWith s [] = True"
| "startsWith [] (p # ps) = False"
| "startsWith (c # cs) (p # ps) = (c = p \<and> startsWith cs ps)"

fun includesStr :: "string \<Rightarrow> string \<Rightarrow> bool" where
  "includesStr [] needle = (needle = [])"
| "includesStr (c # cs) needle = (startsWith (c # cs) needle \<or> includesStr cs needle)"

text \<open>
  \<open>s.replace('.com', '')\<close> with a string pattern: the leftmost occurrence of the
  pattern is removed, wherever it stands, and nothing else.
\<close>

fun removeFirstDotCom :: "string \<Rightarrow> string" where
  "removeFirstDotCom [] = []"
| "removeFirstDotCom (c # cs) =
     (if startsWith (c # cs) ''.com'' then drop 4 (c # cs) else c # removeFirstDotCom cs)"

subsection \<open>Numbers\<close>

text \<open>
  A finite double is \<open>m * 2 ^ e\<close> with an integer \<open>m\<close> of at most 53 bits and \<open>e \<ge> -1074\<close>.
  \<open>binExp x\<close> is the binary exponent of a positive \<open>x\<close>, the integer \<open>E\<close> with
  \<open>2 ^ E \<le> x < 2 ^ (E + 1)\<close>; \<open>ulpExp x\<close> is the exponent of the spacing of the doubles
  around \<open>x\<close>. \<open>nearestDouble\<close> rounds to the nearest double, a tie going to the even
  significand, as every arithmetic operation of the language does. The numbers of this
  development stay far below the largest double (scores are clamped to \<open>[0, 10]\<close> before
  any arithmetic), so the overflow to \<open>Infinity\<close> is written only where a number is read
  (\<open>toNumber\<close>).
\<close>

definition pow2 :: "int \<Rightarrow> real" where
  "pow2 e = (if 0 \<le> e then 2 ^ nat e else 1 / 2 ^ nat (- e))"

definition binExp :: "real \<Rightarrow> int" where
  "binExp x = (if 1 \<le> x then bitlen \<lfloor>x\<rfloor> - 1 else - bitlen (\<lceil>1 / x\<rceil> - 1))"

definition ulpExp :: "real \<Rightarrow> int" where
  "ulpExp a = max (binExp a - 52) (- 1074)"

definition roundHalfEven :: "real \<Rightarrow> int" where
  "roundHalfEven y =
    (let f = \<lfloor>y\<rfloor>; r = y - of_int f in
     if r < 1 / 2 then f else if 1 / 2 < r then f + 1 else if even f then f else f + 1)"

definition nearestDouble :: "real \<Rightarrow> real" where
  "nearestDouble x =
    (if x = 0 then 0
     else sgn x * of_int (roundHalfEven (\<bar>x\<bar> / pow2 (ulpExp \<bar>x\<bar>))) * pow2 (ulpExp \<bar>x\<bar>))"

text \<open>\<open>a + b\<close>, \<open>a * b\<close> and \<open>a / b\<close> on doubles (\<open>b\<close> is never \<open>0\<close> where the code divides).\<close>

definition jsAdd :: "real \<Rightarrow> real \<Rightarrow> real" where
  "jsAdd a b = nearestDouble (a + b)"

definition jsMul :: "real \<Rightarrow> real \<Rightarrow> real" where
  "jsMul a b = nearestDouble (a * b)"

definition jsDiv :: "real \<Rightarrow> real \<Rightarrow> real" where
  "jsDiv a b = nearestDouble (a / b)"

text \<open>\<open>Math.round\<close>: the nearest integer and, of two nearest ones, the greater. The
  result is an integer below \<open>2 ^ 53\<close> here, hence a double.\<close>

definition mathRound :: "real \<Rightarrow> real" where
  "mathRound y = of_int \<lfloor>y + 1 / 2\<rfloor>"

text \<open>
  A number as the language holds it: a finite double, an infinity or \<open>NaN\<close>. \<open>toNumber x\<close>
  is the number for the exact value \<open>x\<close> of a numeric text (a JSON number, the text
  \<open>parseFloat\<close> reads): the nearest double, or an infinity when rounding reaches
  \<open>2 ^ 1024\<close>, beyond the largest double.
\<close>

datatype jsnum = Num real | PosInfinity | NegInfinity | NaN

definition toNumber :: "real \<Rightarrow> jsnum" where
  "toNumber x =
    (let d = nearestDouble x in
     if 0 < d \<and> 1024 \<le> binExp d then PosInfinity
     else if d < 0 \<and> 1024 \<le> binExp (- d) then NegInfinity
     else Num d)"

text \<open>
  \<open>parseFloat\<close> on a string: leading white space is skipped, then the longest prefix
  that is a decimal literal is read (an optional sign, then \<open>Infinity\<close>, or digits with
  an optional fraction and an optional exponent); without such a prefix the result is
  \<open>NaN\<close>. Whatever follows the prefix is ignored.
\<close>

definition whiteSpaceChars :: string where
  "whiteSpaceChars = [CHR 0x20, CHR 0x09, CHR 0x0A, CHR 0x0B, CHR 0x0C, CHR 0x0D]"

definition isDigit :: "char \<Rightarrow> bool" where
  "isDigit c = (c \<in> set digitChars)"

definition digitValue :: "char \<Rightarrow> nat" where
  "digitValue c = (case map_of (zip digitChars [0 ..< 10]) c of Some d \<Rightarrow> d | None \<Rightarrow> 0)"

definition digitsValue :: "string \<Rightarrow> nat" where
  "digitsValue ds = foldl (\<lambda>n c. 10 * n + digitValue c) 0 ds"

definition pow10 :: "int \<Rightarrow> real" where
  "pow10 e = (if 0 \<le> e then 10 ^ nat e else 1 / 10 ^ nat (- e))"

text \<open>The exponent part at the head of \<open>s\<close>: \<open>e\<close> or \<open>E\<close>, an optional sign and at least one
  digit; \<open>0\<close> when there is none.\<close>

definition exponentPart :: "string \<Rightarrow> int" where
  "exponentPart s =
    (case s of
       [] \<Rightarrow> 0
     | c # t \<Rightarrow>
        if c = CHR ''e'' \<or> c = CHR ''E'' then
          (let neg = startsWith t ''-'';
               u = (if startsWith t ''-'' \<or> startsWith t ''+'' then drop 1 t else t);
               ds = takeWhile isDigit u
           in if ds = [] then 0
              else if neg then - int (digitsValue ds) else int (digitsValue ds))
        else 0)"

text \<open>The value of the unsigned decimal literal at the head of \<open>s\<close>, if there is one.\<close>

definition unsignedValue :: "string \<Rightarrow> real option" where
  "unsignedValue s =
    (let ip = takeWhile isDigit s;
         r1 = dropWhile isDigit s;
         dot = startsWith r1 ''.'';
         fp = (if dot then takeWhile isDigit (drop 1 r1) else []);
         r2 = (if dot then dropWhile isDigit (drop 1 r1) else r1)
     in if ip = [] \<and> fp = [] then None
        else Some ((real (digitsValue ip) + real (digitsValue fp) / 10 ^ length fp)
                    * pow10 (exponentPart r2)))"

definition parseFloatString :: "string \<Rightarrow> jsnum" where
  "parseFloatString s =
    (let t = dropWhile (\<lambda>c. c \<in> set whiteSpaceChars) s;
         neg = startsWith t ''-'';
         u = (if startsWith t ''-'' \<or> startsWith t ''+'' then drop 1 t else t)
     in if startsWith u ''Infinity'' then (if neg then NegInfinity else PosInfinity)
        else (case unsignedValue u of
                None \<Rightarrow> NaN
              | Some v \<Rightarrow> toNumber (if neg then - v else v)))"

text \<open>
  The \<open>score\<close> field of an assessment, as the oracle's JSON gives it: a number, a
  string, or something in whose text \<open>parseFloat\<close> finds no number (a missing field,
  \<open>null\<close>, a boolean, a plain object). An array is read through its text, the texts of
  its elements joined by commas, as the string of that text is.
\<close>

datatype scoreField = JNumber real | JString string | JNoNumber

fun parseFloat :: "scoreField \<Rightarrow> jsnum" where
  "parseFloat (JNumber x) = toNumber x"
| "parseFloat (JString s) = parseFloatString s"
| "parseFloat JNoNumber = NaN"

subsection \<open>Template expansion\<close>

record combo =
  domain :: string
  template :: string
  sources :: string

record packs =
  packA :: "string list"
  packB :: "string list"
  packC :: "string list"

record multipliers =
  prefixes :: "string list"
  suffixes :: "string list"

text \<open>The six cases of the \<open>switch\<close>; any other template identifier yields no combination.\<close>

definition applyTemplate ::
  "string \<Rightarrow> string list \<Rightarrow> string list \<Rightarrow> string list \<Rightarrow> string list \<Rightarrow> string list \<Rightarrow> combo list"
where
  "applyTemplate t A B C pre suf =
    (if t = ''A+B'' then
       concat (map (\<lambda>a. map (\<lambda>b.
         \<lparr>domain = a @ b, template = ''A+B'', sources = ''A:'' @ a @ '', B:'' @ b\<rparr>) B) A)
     else if t = ''B+A'' then
       concat (map (\<lambda>b. map (\<lambda>a.
         \<lparr>domain = b @ a, template = ''B+A'', sources = ''B:'' @ b @ '', A:'' @ a\<rparr>) A) B)
     else if t = ''A+B+C'' then
       concat (map (\<lambda>a. concat (map (\<lambda>b. map (\<lambda>c.
         \<lparr>domain = a @ b @ c, template = ''A+B+C'',
          sources = ''A:'' @ a @ '', B:'' @ b @ '', C:'' @ c\<rparr>) C) B)) A)
     else if t = ''prefix+A+B'' then
       concat (map (\<lambda>p. concat (map (\<lambda>a. map (\<lambda>b.
         \<lparr>domain = p @ a @ b, template = ''prefix+A+B'',
          sources = ''pre:'' @ p @ '', A:'' @ a @ '', B:'' @ b\<rparr>) B) A)) pre)
     else if t = ''A+B+suffix'' then
       concat (map (\<lambda>a. concat (map (\<lambda>b. map (\<lambda>s.
         \<lparr>domain = a @ b @ s, template = ''A+B+suffix'',
          sources = ''A:'' @ a @ '', B:'' @ b @ '', suf:'' @ s\<rparr>) suf) B)) A)
     else if t = ''prefix+A+B+suffix'' then
       concat (map (\<lambda>p. concat (map (\<lambda>a. concat (map (\<lambda>b. map (\<lambda>s.
         \<lparr>domain = p @ a @ b @ s, template = ''prefix+A+B+suffix'',
          sources = ''pre:'' @ p @ '', A:'' @ a @ '', B:'' @ b @ '', suf:'' @ s\<rparr>) suf) B)) A)) pre)
     else [])"

subsection \<open>Constraint filter\<close>

record constraints =
  maxLen :: "int option"
  noHyphens :: "bool option"
  noNumbers :: "bool option"
  banned :: "string list option"
  avoidUglyClusters :: "bool option"

text \<open>
  The five local constants at the head of \<open>generateCombinations\<close>. \<open>constraints?.maxLen || 12\<close>
  is 12 when the constraints or the field are missing and when the field is \<open>0\<close>;
  \<open>constraints?.noHyphens !== false\<close> is true unless the field is given as \<open>false\<close>.
\<close>

definition effMaxLen :: "constraints option \<Rightarrow> int" where
  "effMaxLen cs = (case cs of None \<Rightarrow> 12 | Some c \<Rightarrow>
     (case maxLen c of None \<Rightarrow> 12 | Some m \<Rightarrow> if m = 0 then 12 else m))"

definition notFalse :: "bool option \<Rightarrow> bool" where
  "notFalse b = (b \<noteq> Some False)"

definition effNoHyphens :: "constraints option \<Rightarrow> bool" where
  "effNoHyphens cs = (case cs of None \<Rightarrow> True | Some c \<Rightarrow> notFalse (noHyphens c))"

definition effNoNumbers :: "constraints option \<Rightarrow> bool" where
  "effNoNumbers cs = (case cs of None \<Rightarrow> True | Some c \<Rightarrow> notFalse (noNumbers c))"

definition effBanned :: "constraints option \<Rightarrow> string list" where
  "effBanned cs = (case cs of None \<Rightarrow> [] | Some c \<Rightarrow>
     (case banned c of None \<Rightarrow> [] | Some bs \<Rightarrow> bs))"

definition effAvoidUgly :: "constraints option \<Rightarrow> bool" where
  "effAvoidUgly cs = (case cs of None \<Rightarrow> True | Some c \<Rightarrow> notFalse (avoidUglyClusters c))"

text \<open>\<open>domain.toLowerCase().replace(/[^a-z0-9-]/g, '')\<close>\<close>

definition allowedChar :: "char \<Rightarrow> bool" where
  "allowedChar c = (c \<in> set lowerAlphabet \<or> c \<in> set digitChars \<or> c = CHR ''-'')"

definition normalizeDomain :: "string \<Rightarrow> string" where
  "normalizeDomain d = filter allowedChar (toLowerCase d)"

text \<open>\<open>/\d/.test(s)\<close>\<close>

definition hasDigit :: "string \<Rightarrow> bool" where
  "hasDigit s = (\<exists>c \<in> set s. c \<in> set digitChars)"

text \<open>
  \<open>UGLY_CLUSTERS = /([bcdfghjklmnpqrstvwxz]{4,})|([aeiou]{4,})|(xx|zz|qq|ww|vv)/i\<close>.
  The flag \<open>i\<close> makes the match case-insensitive, so the test is made on the lower-cased
  string. A run of four or more characters of a class occurs exactly when four
  consecutive characters of the class do.
\<close>

definition consonantChars :: string where
  "consonantChars = ''bcdfghjklmnpqrstvwxz''"

definition vowelChars :: string where
  "vowelChars = ''aeiou''"

fun fourInRow :: "string \<Rightarrow> string \<Rightarrow> bool" where
  "fourInRow cls (a # b # c # d # rest) =
     ((a \<in> set cls \<and> b \<in> set cls \<and> c \<in> set cls \<and> d \<in> set cls)
      \<or> fourInRow cls (b # c # d # rest))"
| "fourInRow cls s = False"

definition uglyClusters :: "string \<Rightarrow> bool" where
  "uglyClusters s =
    (let l = toLowerCase s in
       fourInRow consonantChars l \<or> fourInRow vowelChars l \<or>
       includesStr l ''xx'' \<or> includesStr l ''zz'' \<or> includesStr l ''qq'' \<or>
       includesStr l ''ww'' \<or> includesStr l ''vv'')"

text \<open>
  The loop over the banned list: an empty entry is skipped (\<open>b && ...\<close>), any other entry
  bans the candidates that contain its lower-cased form.
\<close>

definition isBanned :: "string list \<Rightarrow> string \<Rightarrow> bool" where
  "isBanned bs normalized = (\<exists>b \<in> set bs. b \<noteq> [] \<and> includesStr normalized (toLowerCase b))"

text \<open>
  The body of the second loop of \<open>generateCombinations\<close>: \<open>None\<close> is a \<open>continue\<close>,
  \<open>Some\<close> the candidate that is pushed.
\<close>

definition keepCombo :: "constraints option \<Rightarrow> combo \<Rightarrow> combo option" where
  "keepCombo cs r =
    (let normalized = normalizeDomain (domain r) in
     if normalized = [] then None
     else if int (length normalized) > effMaxLen cs then None
     else if effNoHyphens cs \<and> includesStr normalized ''-'' then None
     else if effNoNumbers cs \<and> hasDigit normalized then None
     else if effAvoidUgly cs \<and> uglyClusters normalized then None
     else if isBanned (effBanned cs) normalized then None
     else Some \<lparr>domain = normalized, template = template r, sources = sources r\<rparr>)"

text \<open>
  \<open>results\<close> is a \<open>Set\<close> of the JSON texts of the combinations. \<open>JSON.stringify\<close> is
  injective on objects with these three string fields, so the set holds the combinations
  themselves; a \<open>Set\<close> iterates in insertion order and \<open>add\<close> ignores a member.
\<close>

definition setAdd :: "'a list \<Rightarrow> 'a \<Rightarrow> 'a list" where
  "setAdd s x = (if x \<in> set s then s else s @ [x])"

definition resultSet :: "packs \<Rightarrow> multipliers \<Rightarrow> string list option \<Rightarrow> combo list" where
  "resultSet p m ts =
    fold (\<lambda>t results.
            fold (\<lambda>r acc. setAdd acc r)
              (applyTemplate t (packA p) (packB p) (packC p) (prefixes m) (suffixes m)) results)
         (case ts of None \<Rightarrow> [''A+B''] | Some l \<Rightarrow> l) []"

text \<open>Every combination the first loop hands to \<open>results.add\<close>, in order and with
  repetitions.\<close>

definition allCombos :: "packs \<Rightarrow> multipliers \<Rightarrow> string list option \<Rightarrow> combo list" where
  "allCombos p m ts =
    concat (map (\<lambda>t. applyTemplate t (packA p) (packB p) (packC p) (prefixes m) (suffixes m))
      (case ts of None \<Rightarrow> [''A+B''] | Some l \<Rightarrow> l))"

definition generateCombinations ::
  "packs \<Rightarrow> multipliers \<Rightarrow> string list option \<Rightarrow> constraints option \<Rightarrow> combo list" where
  "generateCombinations p m ts cs = List.map_filter (keepCombo cs) (resultSet p m ts)"

subsection \<open>Batching\<close>

text \<open>\<open>arr.slice(s, e)\<close> for indices \<open>0 \<le> s \<le> e\<close>; an end past the array is cut off.\<close>

definition jsSlice :: "'a list \<Rightarrow> nat \<Rightarrow> nat \<Rightarrow> 'a list" where
  "jsSlice arr s e = take (e - s) (drop s arr)"

text \<open>
  The \<open>for\<close> loop of \<open>chunkArray\<close>, with its variables \<open>i\<close> and \<open>chunks\<close>. With a size of
  \<open>0\<close> and an array that is not empty the source never leaves the loop: the model then
  has no value.
\<close>

partial_function (option) chunkLoop ::
  "'a list \<Rightarrow> nat \<Rightarrow> nat \<Rightarrow> 'a list list \<Rightarrow> 'a list list option" where
  "chunkLoop arr sz i chunks =
     (if i < length arr then chunkLoop arr sz (i + sz) (chunks @ [jsSlice arr i (i + sz)])
      else Some chunks)"

definition chunkArray :: "'a list \<Rightarrow> nat \<Rightarrow> 'a list list option" where
  "chunkArray arr sz = chunkLoop arr sz 0 []"

subsection \<open>What the oracle sends back\<close>

text \<open>
  \<open>Math.min(10, Math.max(0, parseFloat(x) || 0))\<close>. \<open>NaN || 0\<close> is \<open>0\<close>;
  \<open>Math.max(0, -Infinity)\<close> is \<open>0\<close>; \<open>Math.min(10, Infinity)\<close> is \<open>10\<close>.
\<close>

definition clampScore :: "jsnum \<Rightarrow> real" where
  "clampScore p = (case p of
      Num x \<Rightarrow> min 10 (max 0 x)
    | PosInfinity \<Rightarrow> 10
    | NegInfinity \<Rightarrow> 0
    | NaN \<Rightarrow> 0)"

datatype bucket = FAST_FLIP | HOLD | PASS

text \<open>\<open>['FAST-FLIP', 'HOLD', 'PASS'].includes(b) ? b : 'PASS'\<close>; \<open>None\<close> is a missing
  field or a value that is not a string.\<close>

definition validBucket :: "string option \<Rightarrow> bucket" where
  "validBucket b =
    (if b = Some ''FAST-FLIP'' then FAST_FLIP
     else if b = Some ''HOLD'' then HOLD
     else PASS)"

text \<open>
  One assessment of the oracle, as the code reads it: \<open>rawScore\<close> is the field
  \<open>x.score\<close>, \<open>rawReason\<close> is \<open>String(x.reason || '')\<close> and \<open>rawUseCase\<close> is
  \<open>String(x.use_case || '')\<close>. The empty object \<open>{}\<close> is \<open>emptyAssessment\<close>.
\<close>

record assessment =
  rawScore :: scoreField
  rawBucket :: "string option"
  rawReason :: string
  rawUseCase :: string

definition emptyAssessment :: assessment where
  "emptyAssessment = \<lparr>rawScore = JNoNumber, rawBucket = None, rawReason = [], rawUseCase = []\<rparr>"




subsection \<open>Single-persona reconciliation\<close>

record result_base =
  r_domain :: string
  bucket :: bucket
  reason :: string
  use_case :: string
  templateUsed :: "string option"
  r_template :: "string option"
  r_sources :: string

record single_result = result_base +
  score :: real


text \<open>The key of an oracle entry: \<open>d.replace('.com', '').toLowerCase()\<close>.\<close>

definition scoreKey :: "string \<Rightarrow> string" where
  "scoreKey d = toLowerCase (removeFirstDotCom d)"





subsection \<open>Multi-persona reconciliation\<close>

record preset =
  presetName :: "string option"

text \<open>\<open>presetMap[id]?.name || id\<close>: the identifier itself when the persona is unknown or
  its name is missing or empty.\<close>

definition nameOr :: "(string \<rightharpoonup> preset) \<Rightarrow> string \<Rightarrow> string" where
  "nameOr presetMap i =
    (case presetMap i of
       None \<Rightarrow> i
     | Some p \<Rightarrow> (case presetName p of None \<Rightarrow> i | Some n \<Rightarrow> if n = [] then i else n))"

text \<open>The same with \<open>presetIds[0]\<close>, which is \<open>undefined\<close> for an empty list; as a property
  key \<open>undefined\<close> is the string \<open>"undefined"\<close>.\<close>

definition bestName :: "(string \<rightharpoonup> preset) \<Rightarrow> string option \<Rightarrow> string option" where
  "bestName presetMap b =
    (case b of
       Some i \<Rightarrow> Some (nameOr presetMap i)
     | None \<Rightarrow>
        (case presetMap ''undefined'' of
           None \<Rightarrow> None
         | Some p \<Rightarrow> (case presetName p of None \<Rightarrow> None | Some n \<Rightarrow> if n = [] then None else Some n)))"

definition firstId :: "string list \<Rightarrow> string option" where
  "firstId presetIds = (case presetIds of [] \<Rightarrow> None | i # _ \<Rightarrow> Some i)"

text \<open>\<open>Math.round(x * 10) / 10\<close>, each operation on doubles.\<close>

definition round1 :: "real \<Rightarrow> real" where
  "round1 x = jsDiv (mathRound (jsMul x 10)) 10"

text \<open>
  \<open>scoreByPreset[id] = v\<close> on the plain object \<open>scoreByPreset\<close>, for a number \<open>v\<close>: the
  object gets the property \<open>id\<close>, except for the id \<open>__proto__\<close>, where the assignment
  reaches the setter of \<open>Object.prototype\<close>, which ignores a number and stores nothing.
\<close>

definition setNumber :: "(string \<rightharpoonup> real) \<Rightarrow> string \<Rightarrow> real \<Rightarrow> (string \<rightharpoonup> real)" where
  "setNumber obj k v = (if k = ''__proto__'' then obj else obj(k \<mapsto> v))"

record multi_result = result_base +
  bestPresetId :: "string option"
  bestPresetName :: "string option"
  bestScore :: real
  avgScore :: real
  maxScore :: real
  scoreByPreset :: "string \<rightharpoonup> real"


text \<open>The variables of the loop of \<open>processMultiResult\<close>.\<close>

record best_state =
  curBestScore :: real
  curBestPresetId :: "string option"
  curBestBucket :: bucket
  curBestReason :: string
  curBestUseCase :: string
  curScoreByPreset :: "string \<rightharpoonup> real"
  curScores :: "real list"

definition initState :: "string list \<Rightarrow> best_state" where
  "initState presetIds =
     \<lparr>curBestScore = 0, curBestPresetId = firstId presetIds, curBestBucket = PASS,
      curBestReason = [], curBestUseCase = [], curScoreByPreset = Map.empty, curScores = []\<rparr>"

text \<open>\<open>resultsByPreset[pid] || {}\<close> and the clamped score read from it.\<close>

definition presetResult :: "(string \<rightharpoonup> assessment) \<Rightarrow> string \<Rightarrow> assessment" where
  "presetResult byPreset pid = (case byPreset pid of None \<Rightarrow> emptyAssessment | Some a \<Rightarrow> a)"

definition presetScore :: "(string \<rightharpoonup> assessment) \<Rightarrow> string \<Rightarrow> real" where
  "presetScore byPreset pid = clampScore (parseFloat (rawScore (presetResult byPreset pid)))"

text \<open>One turn of the loop, for the persona \<open>pid\<close>.\<close>

definition personaStep :: "(string \<rightharpoonup> assessment) \<Rightarrow> string \<Rightarrow> best_state \<Rightarrow> best_state" where
  "personaStep byPreset pid st =
    (let result = presetResult byPreset pid;
         sc = presetScore byPreset pid;
         st1 = st\<lparr>curScoreByPreset := setNumber (curScoreByPreset st) pid (round1 sc),
                  curScores := curScores st @ [sc]\<rparr>
     in if sc > curBestScore st
        then st1\<lparr>curBestScore := sc,
                 curBestPresetId := Some pid,
                 curBestBucket := validBucket (rawBucket result),
                 curBestReason := take 200 (rawReason result),
                 curBestUseCase := take 50 (rawUseCase result)\<rparr>
        else st1)"

definition personaLoop :: "(string \<rightharpoonup> assessment) \<Rightarrow> string list \<Rightarrow> best_state" where
  "personaLoop byPreset presetIds = fold (personaStep byPreset) presetIds (initState presetIds)"

text \<open>\<open>scores.length > 0 ? scores.reduce((a, b) => a + b, 0) / scores.length : 0\<close>\<close>

definition average :: "real list \<Rightarrow> real" where
  "average scores =
    (if length scores > 0 then jsDiv (fold (\<lambda>b a. jsAdd a b) scores 0) (real (length scores))
     else 0)"

text \<open>The final bucket, from the best score before it is rounded.\<close>

definition finalBucket :: "real \<Rightarrow> bucket \<Rightarrow> bucket" where
  "finalBucket best bestBucket =
    (if best \<ge> 8 then FAST_FLIP
     else if best \<ge> 7 then (if bestBucket = FAST_FLIP then FAST_FLIP else HOLD)
     else if best \<ge> 4 then HOLD
     else PASS)"

definition processMultiResult ::
  "combo \<Rightarrow> (string \<rightharpoonup> assessment) \<Rightarrow> string list \<Rightarrow> (string \<rightharpoonup> preset) \<Rightarrow> multi_result" where
  "processMultiResult candidate byPreset presetIds presetMap =
    (let st = personaLoop byPreset presetIds in
     \<lparr>r_domain = domain candidate,
      bucket = finalBucket (curBestScore st) (curBestBucket st),
      reason = curBestReason st,
      use_case = curBestUseCase st,
      templateUsed = Some (template candidate),
      r_template = None,
      r_sources = sources candidate,
      bestPresetId = curBestPresetId st,
      bestPresetName = bestName presetMap (curBestPresetId st),
      bestScore = round1 (curBestScore st),
      avgScore = round1 (average (curScores st)),
      maxScore = round1 (curBestScore st),
      scoreByPreset = curScoreByPreset st\<rparr>)"




subsection \<open>Ranking and truncation\<close>

definition MAX_TOPK :: int where
  "MAX_TOPK = 300"

text \<open>\<open>Math.min(topK || 100, MAX_TOPK)\<close>: a missing \<open>topK\<close> and a \<open>topK\<close> of \<open>0\<close> ask for 100.\<close>

definition limitedTopK :: "int option \<Rightarrow> int" where
  "limitedTopK topK = min (case topK of None \<Rightarrow> 100 | Some k \<Rightarrow> if k = 0 then 100 else k) MAX_TOPK"

text \<open>\<open>arr.slice(0, k)\<close>: a negative \<open>k\<close> counts from the end of the array.\<close>

definition sliceTo :: "'a list \<Rightarrow> int \<Rightarrow> 'a list" where
  "sliceTo arr k = (if k < 0 then take (nat (int (length arr) + k)) arr else take (nat k) arr)"

text \<open>
  \<open>Array.prototype.sort\<close> with a comparison function is a stable sort: \<open>a\<close> comes before
  \<open>b\<close> when the function is negative on \<open>(a, b)\<close>, and elements it does not separate
  keep their order. A stable sort has one result, which insertion from the right
  computes.
\<close>

fun insertBy :: "('a \<Rightarrow> 'a \<Rightarrow> real) \<Rightarrow> 'a \<Rightarrow> 'a list \<Rightarrow> 'a list" where
  "insertBy cmp x [] = [x]"
| "insertBy cmp x (y # ys) = (if cmp x y \<le> 0 then x # y # ys else y # insertBy cmp x ys)"

definition sortBy :: "('a \<Rightarrow> 'a \<Rightarrow> real) \<Rightarrow> 'a list \<Rightarrow> 'a list" where
  "sortBy cmp xs = foldr (insertBy cmp) xs []"

text \<open>\<open>(a, b) => b.score - a.score\<close>\<close>

definition cmpSingle :: "single_result \<Rightarrow> single_result \<Rightarrow> real" where
  "cmpSingle a b = score b - score a"

text \<open>\<open>(a, b) => { if (b.bestScore !== a.bestScore) return b.bestScore - a.bestScore;
  return b.avgScore - a.avgScore; }\<close>\<close>

definition cmpMulti :: "multi_result \<Rightarrow> multi_result \<Rightarrow> real" where
  "cmpMulti a b =
    (if bestScore b \<noteq> bestScore a then bestScore b - bestScore a else avgScore b - avgScore a)"

text \<open>Step 3 of the handler, in its two modes.\<close>

definition rankSingle :: "int option \<Rightarrow> single_result list \<Rightarrow> single_result list" where
  "rankSingle topK allScores = sliceTo (sortBy cmpSingle allScores) (limitedTopK topK)"

definition rankMulti :: "int option \<Rightarrow> multi_result list \<Rightarrow> multi_result list" where
  "rankMulti topK allScores = sliceTo (sortBy cmpMulti allScores) (limitedTopK topK)"

section \<open>Properties\<close>

subsection \<open>Batching\<close>

text \<open>
  The loop of \<open>chunkArray\<close>, started at index \<open>i\<close> with the chunks collected so far:
  for a positive size it returns, and what it appends is the rest of the array cut
  into slices.
\<close>

lemma chunkLoop_spec:
  assumes "0 < sz"
  shows "\<exists>rest. chunkLoop arr sz i chunks = Some (chunks @ rest)
           \<and> concat rest = drop i arr
           \<and> (\<forall>c \<in> set rest. c \<noteq> [] \<and> length c \<le> sz)
           \<and> (\<forall>c \<in> set (butlast rest). length c = sz)
           \<and> (\<forall>j < length rest. rest ! j = jsSlice arr (i + j * sz) (i + j * sz + sz))"
proof (induction "length arr - i" arbitrary: i chunks rule: less_induct)
  case less
  show ?case
  proof (cases "i < length arr")
    case False
    then have "chunkLoop arr sz i chunks = Some (chunks @ [])"
      by (subst chunkLoop.simps) simp
    moreover from False have "drop i arr = []" by simp
    ultimately show ?thesis by (intro exI [of _ "[]"]) simp
  next
    case True
    define c where "c = jsSlice arr i (i + sz)"
    from True assms have smaller: "length arr - (i + sz) < length arr - i" by arith
    from less [OF smaller, of "chunks @ [c]"] obtain rest where
      run: "chunkLoop arr sz (i + sz) (chunks @ [c]) = Some ((chunks @ [c]) @ rest)" and
      cat: "concat rest = drop (i + sz) arr" and
      len: "\<forall>d \<in> set rest. d \<noteq> [] \<and> length d \<le> sz" and
      full: "\<forall>d \<in> set (butlast rest). length d = sz" and
      idx: "\<forall>j < length rest. rest ! j = jsSlice arr (i + sz + j * sz) (i + sz + j * sz + sz)"
      by blast
    have c_eq: "c = take sz (drop i arr)" by (simp add: c_def jsSlice_def)
    have c_nonempty: "c \<noteq> []" using True assms by (simp add: c_eq)
    have c_len: "length c \<le> sz" by (simp add: c_eq)
    have step: "chunkLoop arr sz i chunks = Some (chunks @ (c # rest))"
      using True run by (subst chunkLoop.simps) (simp add: c_def)
    have cat': "concat (c # rest) = drop i arr"
    proof -
      have "drop (i + sz) arr = drop sz (drop i arr)" by (simp add: add.commute)
      then have "concat (c # rest) = take sz (drop i arr) @ drop sz (drop i arr)"
        using cat c_eq by simp
      also have "\<dots> = drop i arr" by (rule append_take_drop_id)
      finally show ?thesis .
    qed
    have len': "\<forall>d \<in> set (c # rest). d \<noteq> [] \<and> length d \<le> sz"
      using len c_nonempty c_len by simp
    have full': "\<forall>d \<in> set (butlast (c # rest)). length d = sz"
    proof (cases "rest = []")
      case True
      then show ?thesis by simp
    next
      case False
      then obtain d ds where rest: "rest = d # ds" by (cases rest) auto
      with len have "d \<noteq> []" by simp
      with rest cat have "drop (i + sz) arr \<noteq> []" by auto
      then have "i + sz < length arr" by simp
      then have "length c = sz" by (simp add: c_eq)
      with full False show ?thesis by simp
    qed
    have idx': "\<forall>j < length (c # rest). (c # rest) ! j = jsSlice arr (i + j * sz) (i + j * sz + sz)"
    proof (intro allI impI)
      fix j assume j: "j < length (c # rest)"
      show "(c # rest) ! j = jsSlice arr (i + j * sz) (i + j * sz + sz)"
      proof (cases j)
        case 0
        then show ?thesis by (simp add: c_def)
      next
        case (Suc k)
        with j have "k < length rest" by simp
        with idx have "rest ! k = jsSlice arr (i + sz + k * sz) (i + sz + k * sz + sz)" by blast
        with Suc show ?thesis by (simp add: add.assoc)
      qed
    qed
    from step cat' len' full' idx' show ?thesis by blast
  qed
qed

text \<open>
  Claim C10. For every array and every positive chunk size, \<open>chunkArray\<close> returns; the
  chunks it returns are the contiguous slices \<open>arr.slice(j * size, j * size + size)\<close>,
  their concatenation in order is the array, every chunk has at most \<open>size\<close> elements
  (and at least one), and every chunk but the last has exactly \<open>size\<close> elements. So
  batching neither drops, duplicates nor reorders candidates.
\<close>

theorem chunkArray_partition:
  assumes "0 < sz"
  shows "\<exists>chunks. chunkArray arr sz = Some chunks
           \<and> concat chunks = arr
           \<and> (\<forall>c \<in> set chunks. c \<noteq> [] \<and> length c \<le> sz)
           \<and> (\<forall>c \<in> set (butlast chunks). length c = sz)
           \<and> (\<forall>j < length chunks. chunks ! j = jsSlice arr (j * sz) (j * sz + sz))"
  using chunkLoop_spec [OF assms, of arr 0 "[]"] by (simp add: chunkArray_def)

theorem chunkArray_partition_witness:
  "(0::nat) < 2 \<and> chunkArray [1, 2, 3, 4, 5 :: nat] 2 = Some [[1, 2], [3, 4], [5]]
   \<and> concat [[1, 2], [3, 4], [5 :: nat]] = [1, 2, 3, 4, 5]"
proof -
  have pos: "(0::nat) < 2" by simp
  from chunkArray_partition [OF pos, of "[1, 2, 3, 4, 5 :: nat]"]
  obtain chunks where run: "chunkArray [1, 2, 3, 4, 5 :: nat] 2 = Some chunks"
    and cat: "concat chunks = [1, 2, 3, 4, 5]" by blast
  have "chunkArray [1, 2, 3, 4, 5 :: nat] 2 = Some [[1, 2], [3, 4], [5]]"
    by (simp add: chunkArray_def chunkLoop.simps jsSlice_def)
  with run cat show ?thesis by simp
qed
subsection \<open>Numbers\<close>

text \<open>
  \<open>binExp\<close> brackets a positive number between two powers of two, rounding to the
  nearest double is monotone on the numbers the code computes with, and so is
  \<open>Math.round(x * 10) / 10\<close>, which keeps \<open>[0, 10]\<close> inside \<open>[0, 10]\<close>.
\<close>

lemma pow2_powr: "pow2 e = 2 powr (of_int e)"
proof (cases "0 \<le> e")
  case True
  then have "(2::real) powr (of_int e) = 2 powr (real (nat e))" by simp
  also have "\<dots> = 2 ^ nat e" by (rule powr_realpow) simp
  finally show ?thesis using True by (simp add: pow2_def)
next
  case False
  then have "(2::real) powr (of_int e) = 2 powr (- real (nat (- e)))" by simp
  also have "\<dots> = 1 / 2 powr (real (nat (- e)))" by (simp add: powr_minus_divide)
  also have "\<dots> = 1 / 2 ^ nat (- e)" by (simp only: powr_realpow [of 2, simplified])
  finally show ?thesis using False by (simp add: pow2_def)
qed

lemma pow2_pos: "0 < pow2 e"
  by (simp add: pow2_powr)

lemma pow2_mono: "a \<le> b \<Longrightarrow> pow2 a \<le> pow2 b"
  by (simp add: pow2_powr)

lemma pow2_add: "pow2 (a + b) = pow2 a * pow2 b"
  by (simp add: pow2_powr powr_add)

lemma binExp_bracket:
  assumes "0 < x"
  shows "pow2 (binExp x) \<le> x \<and> x < pow2 (binExp x + 1)"
proof (cases "1 \<le> x")
  case True
  define n where "n = \<lfloor>x\<rfloor>"
  define b where "b = bitlen n"
  from True have n1: "1 \<le> n" by (simp add: n_def)
  then have bounds: "2 ^ nat (b - 1) \<le> n" "n < 2 ^ nat b"
    using bitlen_bounds [of n] by (simp_all add: b_def)
  have b1: "1 \<le> b"
  proof (rule ccontr)
    assume "\<not> 1 \<le> b"
    then have "nat b = 0" by simp
    with bounds(2) n1 show False by simp
  qed
  have E: "binExp x = b - 1" using True by (simp add: binExp_def n_def b_def)
  have "real_of_int (2 ^ nat (b - 1)) \<le> real_of_int n" using bounds(1) by (simp only: of_int_le_iff)
  also have "\<dots> \<le> x" by (simp add: n_def)
  finally have lower: "pow2 (b - 1) \<le> x" using b1 by (simp add: pow2_def)
  from bounds(2) have "n + 1 \<le> 2 ^ nat b" by simp
  then have "real_of_int (n + 1) \<le> real_of_int (2 ^ nat b)" by (simp only: of_int_le_iff)
  moreover have "x < real_of_int (n + 1)" by (simp add: n_def)
  ultimately have upper: "x < pow2 b" using b1 by (simp add: pow2_def)
  from lower upper show ?thesis by (simp add: E)
next
  case False
  define y where "y = 1 / x"
  define m where "m = \<lceil>y\<rceil> - 1"
  define b where "b = bitlen m"
  from False assms have y1: "1 < y" by (simp add: y_def)
  then have "1 < \<lceil>y\<rceil>" by (simp add: less_ceiling_iff)
  then have m1: "1 \<le> m" by (simp add: m_def)
  then have bounds: "2 ^ nat (b - 1) \<le> m" "m < 2 ^ nat b"
    using bitlen_bounds [of m] by (simp_all add: b_def)
  have b1: "1 \<le> b"
  proof (rule ccontr)
    assume "\<not> 1 \<le> b"
    then have "nat b = 0" by simp
    with bounds(2) m1 show False by simp
  qed
  have E: "binExp x = - b" using False by (simp add: binExp_def y_def m_def b_def)
  have my: "real_of_int m < y" "y \<le> real_of_int (m + 1)"
    unfolding m_def by linarith+
  from bounds(2) have "m + 1 \<le> 2 ^ nat b" by simp
  then have "real_of_int (m + 1) \<le> real_of_int (2 ^ nat b)" by (simp only: of_int_le_iff)
  with my(2) have yb: "y \<le> 2 ^ nat b" by simp
  have "real_of_int (2 ^ nat (b - 1)) \<le> real_of_int m" using bounds(1) by (simp only: of_int_le_iff)
  then have "(2::real) ^ nat (b - 1) \<le> real_of_int m" by simp
  with my(1) have by': "2 ^ nat (b - 1) < y" by linarith
  have xy: "x = 1 / y" using assms by (simp add: y_def)
  have ypos: "0 < y" using y1 by simp
  have lower: "pow2 (- b) \<le> x"
  proof -
    have "1 / 2 ^ nat b \<le> 1 / y" using yb ypos by (simp add: frac_le)
    then show ?thesis using b1 by (simp add: pow2_def xy)
  qed
  have upper: "x < pow2 (- b + 1)"
  proof -
    have "1 / y < 1 / 2 ^ nat (b - 1)" using by' by (simp add: frac_less2)
    moreover have "pow2 (- b + 1) = 1 / 2 ^ nat (b - 1)"
    proof (cases "b = 1")
      case True
      then show ?thesis by (simp add: pow2_def)
    next
      case False
      with b1 have "\<not> 0 \<le> - b + 1" by simp
      moreover have "nat (- (- b + 1)) = nat (b - 1)" by simp
      ultimately show ?thesis by (simp add: pow2_def)
    qed
    ultimately show ?thesis by (simp add: xy)
  qed
  from lower upper show ?thesis by (simp add: E)
qed

lemma binExp_mono:
  assumes "0 < x" "x \<le> y"
  shows "binExp x \<le> binExp y"
proof (rule ccontr)
  assume "\<not> binExp x \<le> binExp y"
  then have "binExp y + 1 \<le> binExp x" by simp
  then have "pow2 (binExp y + 1) \<le> pow2 (binExp x)" by (rule pow2_mono)
  moreover from assms have "y < pow2 (binExp y + 1)" using binExp_bracket [of y] by simp
  moreover from assms have "pow2 (binExp x) \<le> x" using binExp_bracket [of x] by simp
  ultimately show False using assms by simp
qed

lemma roundHalfEven_bounds: "y - 1 / 2 \<le> of_int (roundHalfEven y) \<and> of_int (roundHalfEven y) \<le> y + 1 / 2"
  unfolding roundHalfEven_def Let_def by (auto; linarith)

lemma roundHalfEven_mono:
  assumes "x \<le> y"
  shows "roundHalfEven x \<le> roundHalfEven y"
proof (rule ccontr)
  assume "\<not> roundHalfEven x \<le> roundHalfEven y"
  then have "roundHalfEven y + 1 \<le> roundHalfEven x" by simp
  then have gap: "real_of_int (roundHalfEven y) + 1 \<le> real_of_int (roundHalfEven x)"
    by (metis of_int_1 of_int_add of_int_le_iff)
  with roundHalfEven_bounds [of x] roundHalfEven_bounds [of y] assms
  have "x = y" by linarith
  with \<open>\<not> roundHalfEven x \<le> roundHalfEven y\<close> show False by simp
qed

lemma roundHalfEven_int: "roundHalfEven (of_int n) = n"
  by (simp add: roundHalfEven_def)

lemma roundHalfEven_le: "y \<le> of_int n \<Longrightarrow> roundHalfEven y \<le> n"
  using roundHalfEven_mono [of y "of_int n"] by (simp add: roundHalfEven_int)

lemma roundHalfEven_ge: "of_int n \<le> y \<Longrightarrow> n \<le> roundHalfEven y"
  using roundHalfEven_mono [of "of_int n" y] by (simp add: roundHalfEven_int)

lemma nearestDouble_pos:
  "0 < x \<Longrightarrow> nearestDouble x = of_int (roundHalfEven (x / pow2 (ulpExp x))) * pow2 (ulpExp x)"
  by (simp add: nearestDouble_def)

lemma ulpExp_mono: "0 < x \<Longrightarrow> x \<le> y \<Longrightarrow> ulpExp x \<le> ulpExp y"
  using binExp_mono [of x y] by (simp add: ulpExp_def)

lemma nearestDouble_nonneg: "0 \<le> x \<Longrightarrow> 0 \<le> nearestDouble x"
proof (cases "x = 0")
  case True
  then show ?thesis by (simp add: nearestDouble_def)
next
  case False
  assume "0 \<le> x"
  with False have pos: "0 < x" by simp
  then have "0 \<le> x / pow2 (ulpExp x)" using pow2_pos [of "ulpExp x"] by simp
  then have "0 \<le> roundHalfEven (x / pow2 (ulpExp x))"
    using roundHalfEven_ge [of 0] by simp
  then show ?thesis using pow2_pos [of "ulpExp x"] by (simp add: nearestDouble_pos [OF pos])
qed

lemma nearestDouble_mono:
  assumes "0 \<le> x" "x \<le> y"
  shows "nearestDouble x \<le> nearestDouble y"
proof (cases "x = 0")
  case True
  with assms show ?thesis using nearestDouble_nonneg [of y] by (simp add: nearestDouble_def)
next
  case False
  with assms have px: "0 < x" and py: "0 < y" by simp_all
  define ex where "ex = ulpExp x"
  define ey where "ey = ulpExp y"
  have le: "ex \<le> ey" unfolding ex_def ey_def using px assms(2) by (rule ulpExp_mono)
  have nx: "nearestDouble x = of_int (roundHalfEven (x / pow2 ex)) * pow2 ex"
    by (simp add: nearestDouble_pos [OF px] ex_def)
  have ny: "nearestDouble y = of_int (roundHalfEven (y / pow2 ey)) * pow2 ey"
    by (simp add: nearestDouble_pos [OF py] ey_def)
  show ?thesis
  proof (cases "ex = ey")
    case True
    have "x / pow2 ey \<le> y / pow2 ey" using assms(2) pow2_pos [of ey] by (simp add: divide_right_mono)
    then have "roundHalfEven (x / pow2 ey) \<le> roundHalfEven (y / pow2 ey)" by (rule roundHalfEven_mono)
    then have "real_of_int (roundHalfEven (x / pow2 ey)) \<le> real_of_int (roundHalfEven (y / pow2 ey))"
      by simp
    then show ?thesis unfolding nx ny True using pow2_pos [of ey] by (simp add: mult_right_mono)
  next
    case False
    with le have lt: "ex + 1 \<le> ey" by simp
    moreover have "- 1074 \<le> ex" by (simp add: ex_def ulpExp_def)
    ultimately have "- 1074 < ey" by simp
    then have ey_eq: "ey = binExp y - 52" by (simp add: ey_def ulpExp_def max_def split: if_splits)
    have "binExp x - 52 \<le> ex" by (simp add: ex_def ulpExp_def)
    then have bx: "binExp x + 1 \<le> ex + 53" by simp
    have "x < pow2 (binExp x + 1)" using binExp_bracket [OF px] by simp
    also have "\<dots> \<le> pow2 (ex + 53)" using bx by (rule pow2_mono)
    also have "\<dots> = pow2 53 * pow2 ex" by (simp add: pow2_add mult.commute)
    finally have "x / pow2 ex < pow2 53" using pow2_pos [of ex] by (simp add: divide_less_eq)
    then have "x / pow2 ex \<le> of_int (2 ^ 53)" by (simp add: pow2_def)
    then have "roundHalfEven (x / pow2 ex) \<le> 2 ^ 53" by (rule roundHalfEven_le)
    then have "real_of_int (roundHalfEven (x / pow2 ex)) \<le> pow2 53"
      by (simp add: pow2_def)
    then have "nearestDouble x \<le> pow2 53 * pow2 ex"
      unfolding nx using pow2_pos [of ex] by (simp add: mult_right_mono)
    also have "\<dots> = pow2 (ex + 53)" by (simp add: pow2_add mult.commute)
    also have "\<dots> \<le> pow2 (ey + 52)" using lt by (intro pow2_mono) simp
    also have "\<dots> = pow2 52 * pow2 ey" by (simp add: pow2_add mult.commute)
    finally have upper: "nearestDouble x \<le> pow2 52 * pow2 ey" .
    have "pow2 (ey + 52) \<le> y" using binExp_bracket [OF py] by (simp add: ey_eq)
    then have "pow2 52 * pow2 ey \<le> y" by (simp add: pow2_add mult.commute)
    then have "pow2 52 \<le> y / pow2 ey" using pow2_pos [of ey] by (simp add: le_divide_eq)
    then have "of_int (2 ^ 52) \<le> y / pow2 ey" by (simp add: pow2_def)
    then have "2 ^ 52 \<le> roundHalfEven (y / pow2 ey)" by (rule roundHalfEven_ge)
    then have "pow2 52 \<le> real_of_int (roundHalfEven (y / pow2 ey))"
      by (simp add: pow2_def)
    then have "pow2 52 * pow2 ey \<le> nearestDouble y"
      unfolding ny using pow2_pos [of ey] by (simp add: mult_right_mono)
    with upper show ?thesis by simp
  qed
qed




lemma mathRound_mono: "x \<le> y \<Longrightarrow> mathRound x \<le> mathRound y"
  by (simp add: mathRound_def floor_mono)

lemma round1_mono:
  assumes "0 \<le> x" "x \<le> y"
  shows "round1 x \<le> round1 y"
proof -
  from assms have "nearestDouble (x * 10) \<le> nearestDouble (y * 10)"
    by (intro nearestDouble_mono) simp_all
  then have steps: "mathRound (nearestDouble (x * 10)) / 10 \<le> mathRound (nearestDouble (y * 10)) / 10"
    by (simp add: mathRound_mono divide_right_mono)
  have "0 \<le> nearestDouble (x * 10)" using assms by (intro nearestDouble_nonneg) simp
  then have "0 \<le> mathRound (nearestDouble (x * 10)) / 10" by (simp add: mathRound_def)
  then show ?thesis using steps
    unfolding round1_def jsDiv_def jsMul_def by (rule nearestDouble_mono)
qed




subsection \<open>Candidate generation\<close>

text \<open>
  Claim C2, as stated, fails. With the default constraints the packs \<open>A = ["trust"]\<close>,
  \<open>B = ["flow"]\<close> and the template \<open>"A+B"\<close> give no candidate at all: \<open>trustflow\<close>
  contains the four consonants \<open>stfl\<close> in a row, and \<open>avoidUglyClusters\<close> is on unless it
  is switched off.
\<close>

theorem trustflow_default_counterexample:
  "generateCombinations \<lparr>packA = [''trust''], packB = [''flow''], packC = []\<rparr>
     \<lparr>prefixes = [], suffixes = []\<rparr> (Some [''A+B'']) None = []
   \<and> generateCombinations \<lparr>packA = [''trust''], packB = [''flow''], packC = []\<rparr>
     \<lparr>prefixes = [], suffixes = []\<rparr> (Some [''A+B''])
     (Some \<lparr>maxLen = Some 12, noHyphens = Some True, noNumbers = Some True, banned = Some [],
            avoidUglyClusters = Some True\<rparr>) = []"
  by code_simp


text \<open>
  Claim C2, amended. For these packs and this template: the default constraints give no
  candidate, because \<open>trustflow\<close> matches \<open>UGLY_CLUSTERS\<close>; with \<open>avoidUglyClusters\<close>
  set to \<open>false\<close> the result is the single candidate \<open>trustflow\<close>; with \<open>maxLen = 8\<close>
  there is no candidate, whatever \<open>avoidUglyClusters\<close> is.
\<close>

theorem trustflow_scenario:
  "generateCombinations \<lparr>packA = [''trust''], packB = [''flow''], packC = []\<rparr>
     \<lparr>prefixes = [], suffixes = []\<rparr> (Some [''A+B'']) None = []
   \<and> uglyClusters ''trustflow''
   \<and> generateCombinations \<lparr>packA = [''trust''], packB = [''flow''], packC = []\<rparr>
     \<lparr>prefixes = [], suffixes = []\<rparr> (Some [''A+B''])
     (Some \<lparr>maxLen = None, noHyphens = None, noNumbers = None, banned = None,
            avoidUglyClusters = Some False\<rparr>)
     = [\<lparr>domain = ''trustflow'', template = ''A+B'', sources = ''A:trust, B:flow''\<rparr>]
   \<and> generateCombinations \<lparr>packA = [''trust''], packB = [''flow''], packC = []\<rparr>
     \<lparr>prefixes = [], suffixes = []\<rparr> (Some [''A+B''])
     (Some \<lparr>maxLen = Some 8, noHyphens = None, noNumbers = None, banned = None,
            avoidUglyClusters = None\<rparr>) = []
   \<and> generateCombinations \<lparr>packA = [''trust''], packB = [''flow''], packC = []\<rparr>
     \<lparr>prefixes = [], suffixes = []\<rparr> (Some [''A+B''])
     (Some \<lparr>maxLen = Some 8, noHyphens = None, noNumbers = None, banned = None,
            avoidUglyClusters = Some False\<rparr>) = []"
  by code_simp


text \<open>\<open>includes\<close> is containment as a contiguous block, and a normalized domain is its
  own lower-case form.\<close>

lemma startsWith_iff: "startsWith s p = (\<exists>v. s = p @ v)"
  by (induction s p rule: startsWith.induct) auto

lemma includesStr_iff: "includesStr s n = (\<exists>u v. s = u @ n @ v)"
proof (induction s)
  case Nil
  then show ?case by simp
next
  case (Cons c cs)
  have "(\<exists>u v. c # cs = u @ n @ v) = ((\<exists>v. c # cs = n @ v) \<or> (\<exists>u v. cs = u @ n @ v))"
  proof
    assume "\<exists>u v. c # cs = u @ n @ v"
    then obtain u v where uv: "c # cs = u @ n @ v" by blast
    show "(\<exists>v. c # cs = n @ v) \<or> (\<exists>u v. cs = u @ n @ v)"
    proof (cases u)
      case Nil
      with uv show ?thesis by auto
    next
      case (Cons d u')
      with uv have "cs = u' @ n @ v" by simp
      then show ?thesis by blast
    qed
  next
    assume "(\<exists>v. c # cs = n @ v) \<or> (\<exists>u v. cs = u @ n @ v)"
    then show "\<exists>u v. c # cs = u @ n @ v"
    proof
      assume "\<exists>v. c # cs = n @ v"
      then obtain v where "c # cs = [] @ n @ v" by auto
      then show ?thesis by blast
    next
      assume "\<exists>u v. cs = u @ n @ v"
      then obtain u v where "c # cs = (c # u) @ n @ v" by auto
      then show ?thesis by blast
    qed
  qed
  with Cons show ?case by (simp add: startsWith_iff)
qed

lemma includesStr_char: "includesStr s [ch] = (ch \<in> set s)"
  by (induction s) auto

lemma alphabets_distinct: "distinct (upperAlphabet @ lowerAlphabet @ digitChars @ ''-'')"
  by code_simp

lemma not_upper: "allowedChar c \<Longrightarrow> c \<notin> set upperAlphabet"
  using alphabets_distinct unfolding allowedChar_def by auto

lemma allowed_lower: "allowedChar c \<Longrightarrow> toLowerChar c = c"
proof -
  assume "allowedChar c"
  then have "c \<notin> set upperAlphabet" by (rule not_upper)
  then have "map_of (zip upperAlphabet lowerAlphabet) c = None"
    by (auto simp: map_of_eq_None_iff dest: set_zip_leftD)
  then show ?thesis by (simp add: toLowerChar_def)
qed

lemma normalizeDomain_allowed: "ch \<in> set (normalizeDomain d) \<Longrightarrow> allowedChar ch"
  by (simp add: normalizeDomain_def)

lemma normalizeDomain_lower: "toLowerCase (normalizeDomain d) = normalizeDomain d"
  unfolding toLowerCase_def by (rule map_idI) (simp add: allowed_lower normalizeDomain_allowed)

lemma keepCombo_Some:
  assumes "keepCombo cs r = Some c"
  shows "domain c = normalizeDomain (domain r)" "template c = template r" "sources c = sources r"
    "domain c \<noteq> []"
    "int (length (domain c)) \<le> effMaxLen cs"
    "effNoHyphens cs \<longrightarrow> \<not> includesStr (domain c) ''-''"
    "effNoNumbers cs \<longrightarrow> \<not> hasDigit (domain c)"
    "effAvoidUgly cs \<longrightarrow> \<not> uglyClusters (domain c)"
    "\<not> isBanned (effBanned cs) (domain c)"
proof -
  define n where "n = normalizeDomain (domain r)"
  from assms have kept: "n \<noteq> []" "\<not> int (length n) > effMaxLen cs"
    "\<not> (effNoHyphens cs \<and> includesStr n ''-'')" "\<not> (effNoNumbers cs \<and> hasDigit n)"
    "\<not> (effAvoidUgly cs \<and> uglyClusters n)" "\<not> isBanned (effBanned cs) n"
    and c: "c = \<lparr>domain = n, template = template r, sources = sources r\<rparr>"
    unfolding keepCombo_def Let_def n_def [symmetric]
    by (simp_all split: if_splits)
  from c have d: "domain c = n" by simp
  show "domain c = normalizeDomain (domain r)" by (simp add: d n_def)
  show "template c = template r" "sources c = sources r" by (simp_all add: c)
  show "domain c \<noteq> []" using kept by (simp add: d)
  show "int (length (domain c)) \<le> effMaxLen cs" using kept by (simp add: d)
  show "effNoHyphens cs \<longrightarrow> \<not> includesStr (domain c) ''-''" using kept unfolding d by blast
  show "effNoNumbers cs \<longrightarrow> \<not> hasDigit (domain c)" using kept unfolding d by blast
  show "effAvoidUgly cs \<longrightarrow> \<not> uglyClusters (domain c)" using kept unfolding d by blast
  show "\<not> isBanned (effBanned cs) (domain c)" using kept unfolding d by blast
qed

lemma generateCombinations_origin:
  "c \<in> set (generateCombinations p m ts cs) \<Longrightarrow> \<exists>r \<in> set (resultSet p m ts). keepCombo cs r = Some c"
  by (auto simp: generateCombinations_def List.map_filter_def)


text \<open>
  Claim C3, as stated, fails for two constraint sets. The function reads \<open>maxLen\<close> as
  \<open>constraints?.maxLen || 12\<close>, so with \<open>maxLen = 0\<close> it keeps domains of up to 12
  characters, longer than the \<open>maxLen\<close> of the constraint set. And the loop over the
  banned list skips an empty entry (\<open>b && ...\<close>), so with the banned list \<open>[""]\<close> it keeps
  domains although every domain contains the empty string.
\<close>

theorem constraint_filter_counterexample:
  "map domain (generateCombinations \<lparr>packA = [''go''], packB = [''lab''], packC = []\<rparr>
      \<lparr>prefixes = [], suffixes = []\<rparr> (Some [''A+B''])
      (Some \<lparr>maxLen = Some 0, noHyphens = Some True, noNumbers = Some True, banned = Some [],
             avoidUglyClusters = Some True\<rparr>)) = [''golab'']
   \<and> \<not> int (length ''golab'') \<le> 0
   \<and> map domain (generateCombinations \<lparr>packA = [''go''], packB = [''lab''], packC = []\<rparr>
      \<lparr>prefixes = [], suffixes = []\<rparr> (Some [''A+B''])
      (Some \<lparr>maxLen = Some 12, noHyphens = Some True, noNumbers = Some True,
             banned = Some [[]], avoidUglyClusters = Some True\<rparr>)) = [''golab'']
   \<and> includesStr ''golab'' (toLowerCase [])"
  by code_simp

text \<open>
  Claim C3, amended. For every constraint set (given or missing) and every packs,
  multipliers and templates, each candidate returned by \<open>generateCombinations\<close> has a
  non-empty normalized domain, made of the characters \<open>a-z\<close>, \<open>0-9\<close> and \<open>-\<close> only. Its
  length is at most \<open>maxLen\<close> when \<open>maxLen\<close> is given and is not \<open>0\<close>, and at most 12 when
  \<open>maxLen\<close> is missing or \<open>0\<close>. It contains no hyphen when \<open>noHyphens\<close> is true or
  missing, no digit when \<open>noNumbers\<close> is true or missing, and no banned substring that
  is not empty, compared case-insensitively.
\<close>

theorem constraint_filter:
  "\<forall>c \<in> set (generateCombinations p m ts cs).
      domain c \<noteq> []
    \<and> set (domain c) \<subseteq> set ''abcdefghijklmnopqrstuvwxyz0123456789-''
    \<and> toLowerCase (domain c) = domain c
    \<and> (\<forall>k n. cs = Some k \<and> maxLen k = Some n \<and> n \<noteq> 0 \<longrightarrow> int (length (domain c)) \<le> n)
    \<and> (cs = None \<or> (\<exists>k. cs = Some k \<and> (maxLen k = None \<or> maxLen k = Some 0))
          \<longrightarrow> length (domain c) \<le> 12)
    \<and> (cs = None \<or> (\<exists>k. cs = Some k \<and> noHyphens k \<noteq> Some False)
          \<longrightarrow> CHR ''-'' \<notin> set (domain c))
    \<and> (cs = None \<or> (\<exists>k. cs = Some k \<and> noNumbers k \<noteq> Some False)
          \<longrightarrow> set (domain c) \<inter> set ''0123456789'' = {})
    \<and> (\<forall>k bs b. cs = Some k \<and> banned k = Some bs \<and> b \<in> set bs \<and> b \<noteq> [] \<longrightarrow>
          \<not> (\<exists>u v. toLowerCase (domain c) = u @ toLowerCase b @ v))"
proof
  fix c assume "c \<in> set (generateCombinations p m ts cs)"
  then obtain r where "keepCombo cs r = Some c" using generateCombinations_origin by blast
  note k = keepCombo_Some [OF this]
  have lower: "toLowerCase (domain c) = domain c" by (simp add: k(1) normalizeDomain_lower)
  have "\<forall>ch \<in> set (domain c). allowedChar ch"
    by (simp add: k(1) normalizeDomain_allowed)
  then have "set (domain c) \<subseteq> set (lowerAlphabet @ digitChars @ ''-'')"
    by (auto simp: allowedChar_def)
  moreover have "lowerAlphabet @ digitChars @ ''-'' = ''abcdefghijklmnopqrstuvwxyz0123456789-''"
    by (simp add: lowerAlphabet_def digitChars_def)
  ultimately have chars: "set (domain c) \<subseteq> set ''abcdefghijklmnopqrstuvwxyz0123456789-''"
    by (simp only:)
  have len: "\<forall>k n. cs = Some k \<and> maxLen k = Some n \<and> n \<noteq> 0 \<longrightarrow> int (length (domain c)) \<le> n"
    using k(5) by (auto simp: effMaxLen_def)
  have len12: "cs = None \<or> (\<exists>k. cs = Some k \<and> (maxLen k = None \<or> maxLen k = Some 0))
          \<longrightarrow> length (domain c) \<le> 12"
    using k(5) by (auto simp: effMaxLen_def)
  have hyphen: "cs = None \<or> (\<exists>k. cs = Some k \<and> noHyphens k \<noteq> Some False)
          \<longrightarrow> CHR ''-'' \<notin> set (domain c)"
    using k(6) by (auto simp: effNoHyphens_def notFalse_def includesStr_char)
  have "cs = None \<or> (\<exists>k. cs = Some k \<and> noNumbers k \<noteq> Some False)
          \<longrightarrow> set (domain c) \<inter> set digitChars = {}"
    using k(7) unfolding hasDigit_def
    by (auto simp: effNoNumbers_def notFalse_def)
  then have digits: "cs = None \<or> (\<exists>k. cs = Some k \<and> noNumbers k \<noteq> Some False)
          \<longrightarrow> set (domain c) \<inter> set ''0123456789'' = {}"
    by (simp only: digitChars_def)
  have bans: "\<forall>k bs b. cs = Some k \<and> banned k = Some bs \<and> b \<in> set bs \<and> b \<noteq> [] \<longrightarrow>
          \<not> (\<exists>u v. toLowerCase (domain c) = u @ toLowerCase b @ v)"
    using k(9) unfolding isBanned_def includesStr_iff lower
    by (auto simp: effBanned_def)
  from k(4) chars lower len len12 hyphen digits bans
  show "domain c \<noteq> []
    \<and> set (domain c) \<subseteq> set ''abcdefghijklmnopqrstuvwxyz0123456789-''
    \<and> toLowerCase (domain c) = domain c
    \<and> (\<forall>k n. cs = Some k \<and> maxLen k = Some n \<and> n \<noteq> 0 \<longrightarrow> int (length (domain c)) \<le> n)
    \<and> (cs = None \<or> (\<exists>k. cs = Some k \<and> (maxLen k = None \<or> maxLen k = Some 0))
          \<longrightarrow> length (domain c) \<le> 12)
    \<and> (cs = None \<or> (\<exists>k. cs = Some k \<and> noHyphens k \<noteq> Some False)
          \<longrightarrow> CHR ''-'' \<notin> set (domain c))
    \<and> (cs = None \<or> (\<exists>k. cs = Some k \<and> noNumbers k \<noteq> Some False)
          \<longrightarrow> set (domain c) \<inter> set ''0123456789'' = {})
    \<and> (\<forall>k bs b. cs = Some k \<and> banned k = Some bs \<and> b \<in> set bs \<and> b \<noteq> [] \<longrightarrow>
          \<not> (\<exists>u v. toLowerCase (domain c) = u @ toLowerCase b @ v))"
    by blast
qed

theorem constraint_filter_witness:
  "generateCombinations \<lparr>packA = [''Go'', ''x1''], packB = [''Lab''], packC = []\<rparr>
      \<lparr>prefixes = [], suffixes = []\<rparr> None
      (Some \<lparr>maxLen = Some 6, noHyphens = Some True, noNumbers = Some True,
             banned = Some [''ZZ'', []], avoidUglyClusters = None\<rparr>)
     = [\<lparr>domain = ''golab'', template = ''A+B'', sources = ''A:Go, B:Lab''\<rparr>]
   \<and> int (length ''golab'') \<le> 6
   \<and> CHR ''-'' \<notin> set ''golab''
   \<and> \<not> (\<exists>u v. toLowerCase ''golab'' = u @ toLowerCase ''ZZ'' @ v)"
proof -
  define K where "K = \<lparr>maxLen = Some 6, noHyphens = Some True, noNumbers = Some True,
             banned = Some [''ZZ'', []], avoidUglyClusters = None\<rparr>"
  define P where "P = \<lparr>packA = [''Go'', ''x1''], packB = [''Lab''], packC = []\<rparr>"
  define M where "M = \<lparr>prefixes = [], suffixes = []\<rparr>"
  define G where "G = \<lparr>domain = ''golab'', template = ''A+B'', sources = ''A:Go, B:Lab''\<rparr>"
  have run: "generateCombinations P M None (Some K) = [G]"
    unfolding P_def M_def K_def G_def by code_simp
  then have "G \<in> set (generateCombinations P M None (Some K))" by simp
  with constraint_filter [of P M None "Some K"]
  have facts: "(\<forall>k n. Some K = Some k \<and> maxLen k = Some n \<and> n \<noteq> 0 \<longrightarrow> int (length (domain G)) \<le> n)"
    "(Some K = None \<or> (\<exists>k. Some K = Some k \<and> noHyphens k \<noteq> Some False)
          \<longrightarrow> CHR ''-'' \<notin> set (domain G))"
    "(\<forall>k bs b. Some K = Some k \<and> banned k = Some bs \<and> b \<in> set bs \<and> b \<noteq> [] \<longrightarrow>
          \<not> (\<exists>u v. toLowerCase (domain G) = u @ toLowerCase b @ v))"
    by blast+
  have fields: "maxLen K = Some 6" "noHyphens K = Some True" "banned K = Some [''ZZ'', []]"
    by (simp_all add: K_def)
  from facts(1) fields have len: "int (length (domain G)) \<le> 6" by simp
  from facts(2) fields have hyp: "CHR ''-'' \<notin> set (domain G)" by simp
  have ban: "\<not> (\<exists>u v. toLowerCase (domain G) = u @ toLowerCase ''ZZ'' @ v)"
    using facts(3) [rule_format, of K "[''ZZ'', []]" "''ZZ''"] fields by simp
  have dG: "domain G = ''golab''" by (simp add: G_def)
  from run len hyp ban show ?thesis
    unfolding dG unfolding P_def M_def K_def G_def by simp
qed

text \<open>The \<open>Set\<close> of the first loop holds each combination once.\<close>

lemma set_setAdd: "set (setAdd s x) = insert x (set s)"
  by (auto simp: setAdd_def)

lemma distinct_setAdd: "distinct s \<Longrightarrow> distinct (setAdd s x)"
  by (simp add: setAdd_def)

lemma fold_setAdd:
  "distinct acc \<Longrightarrow> distinct (fold (\<lambda>r acc. setAdd acc r) rs acc)
     \<and> set (fold (\<lambda>r acc. setAdd acc r) rs acc) = set acc \<union> set rs"
  by (induction rs arbitrary: acc) (auto simp: set_setAdd distinct_setAdd)

lemma fold_templates:
  "fold (\<lambda>t results. fold g (h t) results) ts acc = fold g (concat (map h ts)) acc"
  by (induction ts arbitrary: acc) simp_all

lemma resultSet_fold: "resultSet p m ts = fold (\<lambda>r acc. setAdd acc r) (allCombos p m ts) []"
  by (simp add: resultSet_def allCombos_def fold_templates)

lemma resultSet_distinct: "distinct (resultSet p m ts)"
  using fold_setAdd [of "[]" "allCombos p m ts"] by (simp add: resultSet_fold)

lemma resultSet_set: "set (resultSet p m ts) = set (allCombos p m ts)"
  using fold_setAdd [of "[]" "allCombos p m ts"] by (simp add: resultSet_fold)

lemma length_generateCombinations:
  "length (generateCombinations p m ts cs) =
     card {r \<in> set (allCombos p m ts). keepCombo cs r \<noteq> None}"
proof -
  have "length (generateCombinations p m ts cs) =
      length (filter (\<lambda>r. keepCombo cs r \<noteq> None) (resultSet p m ts))"
    by (simp add: generateCombinations_def List.map_filter_def)
  also have "\<dots> = card (set (filter (\<lambda>r. keepCombo cs r \<noteq> None) (resultSet p m ts)))"
    by (rule distinct_card [symmetric]) (simp add: resultSet_distinct)
  also have "set (filter (\<lambda>r. keepCombo cs r \<noteq> None) (resultSet p m ts)) =
      {r \<in> set (allCombos p m ts). keepCombo cs r \<noteq> None}"
    by (simp add: resultSet_set)
  finally show ?thesis .
qed

lemma generateCombinations_represented:
  "r \<in> set (allCombos p m ts) \<Longrightarrow> keepCombo cs r = Some c \<Longrightarrow>
     c \<in> set (generateCombinations p m ts cs)"
  by (force simp: generateCombinations_def List.map_filter_def resultSet_set)

lemma generateCombinations_domains:
  assumes "inj_on (\<lambda>r. normalizeDomain (domain r)) (set (allCombos p m ts))"
  shows "distinct (map domain (generateCombinations p m ts cs))"
proof -
  define kept where "kept = filter (\<lambda>r. keepCombo cs r \<noteq> None) (resultSet p m ts)"
  have dom_eq: "domain (the (keepCombo cs r)) = normalizeDomain (domain r)" if "r \<in> set kept" for r
  proof -
    from that obtain c where "keepCombo cs r = Some c" by (auto simp: kept_def)
    then show ?thesis using keepCombo_Some(1) by fastforce
  qed
  have "generateCombinations p m ts cs = map (the \<circ> keepCombo cs) kept"
    by (simp add: generateCombinations_def List.map_filter_def kept_def)
  then have "map domain (generateCombinations p m ts cs) =
      map (\<lambda>r. domain (the (keepCombo cs r))) kept"
    by (simp add: comp_def)
  also have "\<dots> = map (\<lambda>r. normalizeDomain (domain r)) kept"
    by (rule map_cong) (simp_all add: dom_eq)
  finally have "map domain (generateCombinations p m ts cs) =
      map (\<lambda>r. normalizeDomain (domain r)) kept" .
  moreover have "distinct kept" by (simp add: kept_def resultSet_distinct)
  moreover have "set kept \<subseteq> set (allCombos p m ts)" by (auto simp: kept_def resultSet_set)
  with assms have "inj_on (\<lambda>r. normalizeDomain (domain r)) (set kept)" by (rule inj_on_subset)
  ultimately show ?thesis by (simp add: distinct_map)
qed


text \<open>
  Claim C1, as stated, fails: the \<open>Set\<close> is keyed by the whole combination (domain,
  template and sources), so two combinations with the same normalized domain both
  stay when they come from different templates (\<open>go\<close> and \<open>go\<close> under \<open>A+B\<close> and \<open>B+A\<close>)
  or from different words of one template (\<open>a + bc\<close> and \<open>ab + c\<close>).
\<close>

theorem dedup_counterexample:
  "map domain (generateCombinations \<lparr>packA = [''go''], packB = [''go''], packC = []\<rparr>
      \<lparr>prefixes = [], suffixes = []\<rparr> (Some [''A+B'', ''B+A'']) None) = [''gogo'', ''gogo'']
   \<and> map domain (generateCombinations \<lparr>packA = [''a'', ''ab''], packB = [''bc'', ''c''], packC = []\<rparr>
      \<lparr>prefixes = [], suffixes = []\<rparr> (Some [''A+B'']) None) = [''abc'', ''ac'', ''abbc'', ''abc'']
   \<and> \<not> distinct (map domain (generateCombinations \<lparr>packA = [''go''], packB = [''go''], packC = []\<rparr>
      \<lparr>prefixes = [], suffixes = []\<rparr> (Some [''A+B'', ''B+A'']) None))"
  by code_simp


text \<open>
  Claim C1, amended. \<open>generateCombinations\<close> removes repeated combinations, not repeated
  domains: the \<open>Set\<close> holds every combination produced by the templates exactly once
  (same domain, template and sources), the returned list has exactly one entry for each
  distinct combination that passes the filter, and every such combination is
  represented. The returned domains are pairwise distinct whenever no two distinct
  combinations share a normalized domain.
\<close>

theorem dedup_by_record:
  "distinct (resultSet p m ts)
   \<and> set (resultSet p m ts) = set (allCombos p m ts)
   \<and> length (generateCombinations p m ts cs) =
       card {r \<in> set (allCombos p m ts). keepCombo cs r \<noteq> None}
   \<and> (\<forall>r \<in> set (allCombos p m ts). \<forall>c. keepCombo cs r = Some c \<longrightarrow>
         c \<in> set (generateCombinations p m ts cs))
   \<and> (inj_on (\<lambda>r. normalizeDomain (domain r)) (set (allCombos p m ts)) \<longrightarrow>
         distinct (map domain (generateCombinations p m ts cs)))"
  using resultSet_distinct [of p m ts] resultSet_set [of p m ts]
    length_generateCombinations [of p m ts cs]
    generateCombinations_represented [of _ p m ts cs]
    generateCombinations_domains [of p m ts cs]
  by (auto simp: generateCombinations_def)

theorem dedup_by_record_witness:
  "generateCombinations \<lparr>packA = [''go'', ''go''], packB = [''lab''], packC = []\<rparr>
      \<lparr>prefixes = [], suffixes = []\<rparr> (Some [''A+B'', ''A+B'']) None
     = [\<lparr>domain = ''golab'', template = ''A+B'', sources = ''A:go, B:lab''\<rparr>]
   \<and> length (allCombos \<lparr>packA = [''go'', ''go''], packB = [''lab''], packC = []\<rparr>
      \<lparr>prefixes = [], suffixes = []\<rparr> (Some [''A+B'', ''A+B''])) = 4
   \<and> distinct (map domain (generateCombinations \<lparr>packA = [''go'', ''go''], packB = [''lab''], packC = []\<rparr>
      \<lparr>prefixes = [], suffixes = []\<rparr> (Some [''A+B'', ''A+B'']) None))"
proof -
  define P where "P = \<lparr>packA = [''go'', ''go''], packB = [''lab''], packC = []\<rparr>"
  define M where "M = \<lparr>prefixes = [], suffixes = []\<rparr>"
  have all: "allCombos P M (Some [''A+B'', ''A+B'']) =
      replicate 4 \<lparr>domain = ''golab'', template = ''A+B'', sources = ''A:go, B:lab''\<rparr>"
    unfolding P_def M_def by code_simp
  have run: "generateCombinations P M (Some [''A+B'', ''A+B'']) None
     = [\<lparr>domain = ''golab'', template = ''A+B'', sources = ''A:go, B:lab''\<rparr>]"
    unfolding P_def M_def by code_simp
  have "inj_on (\<lambda>r. normalizeDomain (domain r)) (set (allCombos P M (Some [''A+B'', ''A+B''])))"
    by (simp add: all)
  with dedup_by_record [of P M "Some [''A+B'', ''A+B'']" None]
  have "distinct (map domain (generateCombinations P M (Some [''A+B'', ''A+B'']) None))"
    by blast
  with all run show ?thesis unfolding P_def M_def by simp
qed


subsection \<open>Single-persona reconciliation\<close>





subsection \<open>Score clamping\<close>

text \<open>The clamped score is in \<open>[0, 10]\<close> whatever is read, and the loop of
  \<open>processMultiResult\<close> leaves in each of its variables what the personas give.\<close>

lemma clampScore_range: "0 \<le> clampScore p \<and> clampScore p \<le> 10"
  by (cases p) (simp_all add: clampScore_def)

lemma presetScore_range: "0 \<le> presetScore bp p \<and> presetScore bp p \<le> 10"
  by (simp add: presetScore_def clampScore_range)


lemma personaStep_fields:
  "curScores (personaStep bp p st) = curScores st @ [presetScore bp p]"
  "curScoreByPreset (personaStep bp p st) = setNumber (curScoreByPreset st) p (round1 (presetScore bp p))"
  "curBestScore (personaStep bp p st) = max (curBestScore st) (presetScore bp p)"
  "curBestPresetId (personaStep bp p st) =
     (if presetScore bp p > curBestScore st then Some p else curBestPresetId st)"
  "curBestBucket (personaStep bp p st) =
     (if presetScore bp p > curBestScore st then validBucket (rawBucket (presetResult bp p))
      else curBestBucket st)"
  "curBestReason (personaStep bp p st) =
     (if presetScore bp p > curBestScore st then take 200 (rawReason (presetResult bp p))
      else curBestReason st)"
  "curBestUseCase (personaStep bp p st) =
     (if presetScore bp p > curBestScore st then take 50 (rawUseCase (presetResult bp p))
      else curBestUseCase st)"
  by (simp_all add: personaStep_def Let_def)

lemma fold_scores:
  "curScores (fold (personaStep bp) ids st) = curScores st @ map (presetScore bp) ids"
  by (induction ids arbitrary: st) (simp_all add: personaStep_fields)

lemma fold_scoreByPreset:
  "curScoreByPreset (fold (personaStep bp) ids st) q =
     (if q \<in> set ids \<and> q \<noteq> ''__proto__'' then Some (round1 (presetScore bp q))
      else curScoreByPreset st q)"
  by (induction ids arbitrary: st) (auto simp: personaStep_fields setNumber_def)

lemma fold_bestScore:
  "curBestScore (fold (personaStep bp) ids st) =
     Max (insert (curBestScore st) (presetScore bp ` set ids))"
proof (induction ids arbitrary: st)
  case Nil
  then show ?case by simp
next
  case (Cons p ps)
  have "Max (insert (max (curBestScore st) (presetScore bp p)) (presetScore bp ` set ps))
      = Max (insert (curBestScore st) (insert (presetScore bp p) (presetScore bp ` set ps)))"
    by (cases "set ps = {}") (simp_all add: max.assoc)
  with Cons show ?case by (simp add: personaStep_fields)
qed

lemma personaLoop_bestScore:
  "curBestScore (personaLoop bp ids) = Max (insert 0 (presetScore bp ` set ids))"
  by (simp add: personaLoop_def fold_bestScore initState_def)

lemma personaLoop_scoreByPreset:
  "curScoreByPreset (personaLoop bp ids) =
     (\<lambda>q. if q \<in> set ids \<and> q \<noteq> ''__proto__'' then Some (round1 (presetScore bp q)) else None)"
  by (rule ext) (simp add: personaLoop_def fold_scoreByPreset initState_def)

lemma personaLoop_scores: "curScores (personaLoop bp ids) = map (presetScore bp) ids"
  by (simp add: personaLoop_def fold_scores initState_def)









subsection \<open>Multi-persona aggregation\<close>

lemma find_snoc:
  "find P (xs @ [y]) = (case find P xs of None \<Rightarrow> (if P y then Some y else None) | Some x \<Rightarrow> Some x)"
  by (induction xs) simp_all


text \<open>
  The invariant of the loop on the best persona, after the personas \<open>done\<close>: a positive
  best score belongs to the first persona that reached it, whose bucket, reason and use
  case are the ones kept; a best score of \<open>0\<close> leaves the initial values.
\<close>

lemma fold_winner:
  fixes bp ids0
  defines "sc \<equiv> presetScore bp"
  shows "let st = fold (personaStep bp) done (initState ids0); M = curBestScore st in
     (0 < M \<longrightarrow> (\<exists>w. find (\<lambda>q. sc q = M) done = Some w
          \<and> curBestPresetId st = Some w
          \<and> curBestBucket st = validBucket (rawBucket (presetResult bp w))
          \<and> curBestReason st = take 200 (rawReason (presetResult bp w))
          \<and> curBestUseCase st = take 50 (rawUseCase (presetResult bp w))))
     \<and> (M \<le> 0 \<longrightarrow> M = 0 \<and> curBestPresetId st = firstId ids0 \<and> curBestBucket st = PASS
          \<and> curBestReason st = [] \<and> curBestUseCase st = [])"
proof (induction "done" rule: rev_induct)
  case Nil
  then show ?case by (simp add: initState_def)
next
  case (snoc p ps)
  define st where "st = fold (personaStep bp) ps (initState ids0)"
  define M where "M = curBestScore st"
  have M_max: "M = Max (insert 0 (sc ` set ps))"
    by (simp add: M_def st_def fold_bestScore sc_def initState_def)
  have below: "sc q \<le> M" if "q \<in> set ps" for q
    using that by (simp add: M_max)
  have stepped: "fold (personaStep bp) (ps @ [p]) (initState ids0) = personaStep bp p st"
    by (simp add: st_def)
  show ?case
  proof (cases "sc p > M")
    case True
    have "M \<ge> 0" by (simp add: M_max)
    with True have pos: "0 < sc p" by simp
    have "\<not> (\<exists>q \<in> set ps. sc q = sc p)" using below True by force
    then have "find (\<lambda>q. sc q = sc p) ps = None" by (simp add: find_None_iff)
    then have "find (\<lambda>q. sc q = sc p) (ps @ [p]) = Some p" by (simp add: find_snoc)
    with True pos show ?thesis
      unfolding stepped Let_def
      by (simp add: personaStep_fields M_def [symmetric] sc_def [symmetric] max_def)
  next
    case False
    then have same: "max M (sc p) = M" by simp
    from snoc have IH:
      "(0 < M \<longrightarrow> (\<exists>w. find (\<lambda>q. sc q = M) ps = Some w
          \<and> curBestPresetId st = Some w
          \<and> curBestBucket st = validBucket (rawBucket (presetResult bp w))
          \<and> curBestReason st = take 200 (rawReason (presetResult bp w))
          \<and> curBestUseCase st = take 50 (rawUseCase (presetResult bp w))))
       \<and> (M \<le> 0 \<longrightarrow> M = 0 \<and> curBestPresetId st = firstId ids0 \<and> curBestBucket st = PASS
          \<and> curBestReason st = [] \<and> curBestUseCase st = [])"
      by (simp add: Let_def st_def M_def)
    have keep: "find (\<lambda>q. sc q = M) (ps @ [p]) = Some w" if "find (\<lambda>q. sc q = M) ps = Some w" for w
      using that by (simp add: find_snoc)
    from False IH keep show ?thesis
      unfolding stepped Let_def
      by (auto simp: personaStep_fields M_def [symmetric] sc_def [symmetric] same)
  qed
qed

lemma Max_scores:
  assumes "ids \<noteq> []"
  shows "Max (insert 0 (presetScore bp ` set ids)) = Max (presetScore bp ` set ids)"
proof -
  from assms obtain p where p: "p \<in> set ids" by (cases ids) auto
  have "0 \<le> presetScore bp p" by (simp add: presetScore_range)
  also have "presetScore bp p \<le> Max (presetScore bp ` set ids)" using p by simp
  finally have "max 0 (Max (presetScore bp ` set ids)) = Max (presetScore bp ` set ids)"
    by simp
  moreover from assms have "presetScore bp ` set ids \<noteq> {}" by simp
  ultimately show ?thesis by simp
qed

lemma personaLoop_bestPresetId:
  assumes "ids \<noteq> []"
  shows "curBestPresetId (personaLoop bp ids) =
           find (\<lambda>p. presetScore bp p = Max (presetScore bp ` set ids)) ids"
proof -
  define M where "M = curBestScore (personaLoop bp ids)"
  have M_eq: "M = Max (presetScore bp ` set ids)"
    by (simp add: M_def personaLoop_bestScore Max_scores [OF assms])
  note inv = fold_winner [of bp ids ids, unfolded Let_def, folded personaLoop_def, folded M_def]
  show ?thesis
  proof (cases "0 < M")
    case True
    with inv show ?thesis by (auto simp: M_eq)
  next
    case False
    with inv have zero: "M = 0" and first: "curBestPresetId (personaLoop bp ids) = firstId ids"
      by auto
    from assms obtain p ps where ids: "ids = p # ps" by (cases ids) auto
    have "presetScore bp p \<le> M" by (simp add: M_eq ids)
    with zero have "presetScore bp p = M" using presetScore_range [of bp p] by simp
    then have "find (\<lambda>q. presetScore bp q = M) (p # ps) = Some p" by simp
    then have "find (\<lambda>q. presetScore bp q = M) ids = Some p" by (simp only: ids)
    moreover have "firstId ids = Some p" by (simp add: ids firstId_def)
    ultimately show ?thesis by (simp only: first M_eq)
  qed
qed

lemma processMultiResult_bucket:
  "bucket (processMultiResult c bp ids pm) =
     finalBucket (curBestScore (personaLoop bp ids)) (curBestBucket (personaLoop bp ids))"
  by (simp add: processMultiResult_def Let_def)

lemma validBucket_FAST_FLIP: "(validBucket b = FAST_FLIP) = (b = Some ''FAST-FLIP'')"
  by (simp add: validBucket_def)

lemma two_personas:
  assumes a1: "byPreset p1 = Some a1" "rawScore a1 = JNumber (15 / 2)"
    and a2: "byPreset p2 = Some a2" "rawScore a2 = JNumber 6"
    and ids: "presetIds = [p1, p2] \<or> presetIds = [p2, p1]"
  shows "bestScore (processMultiResult c byPreset presetIds presetMap) = 15 / 2
       \<and> avgScore (processMultiResult c byPreset presetIds presetMap) = nearestDouble (34 / 5)
       \<and> bestPresetId (processMultiResult c byPreset presetIds presetMap) = Some p1
       \<and> bucket (processMultiResult c byPreset presetIds presetMap) =
           (if rawBucket a1 = Some ''FAST-FLIP'' then FAST_FLIP else HOLD)"
proof -
  have "clampScore (parseFloat (JNumber (15 / 2))) = 15 / 2" "clampScore (parseFloat (JNumber 6)) = 6"
    by code_simp+
  then have s1: "presetScore byPreset p1 = 15 / 2" and s2: "presetScore byPreset p2 = 6"
    by (simp_all add: presetScore_def presetResult_def a1 a2)
  have r1: "presetResult byPreset p1 = a1" by (simp add: presetResult_def a1)
  have rounded: "round1 (15 / 2) = 15 / 2" "round1 (average [15 / 2, 6]) = nearestDouble (34 / 5)"
    "round1 (average [6, 15 / 2]) = nearestDouble (34 / 5)"
    by code_simp+
  from ids show ?thesis
  proof
    assume "presetIds = [p1, p2]"
    then show ?thesis
      by (simp add: processMultiResult_def Let_def personaLoop_def personaStep_fields
          initState_def s1 s2 r1 rounded finalBucket_def validBucket_FAST_FLIP)
  next
    assume "presetIds = [p2, p1]"
    then show ?thesis
      by (simp add: processMultiResult_def Let_def personaLoop_def personaStep_fields
          initState_def s1 s2 r1 rounded finalBucket_def validBucket_FAST_FLIP)
  qed
qed

text \<open>
  Claim C7, as stated, fails in its first part: \<open>avgScore\<close> is the mean of the clamped
  scores before they are rounded, rounded once at the end; it is not computed from the
  rounded values kept in \<open>scoreByPreset\<close>. For three personas scoring \<open>7.06\<close>, \<open>7.06\<close> and
  \<open>6.97\<close> the entries of \<open>scoreByPreset\<close> are \<open>7.1\<close>, \<open>7.1\<close> and \<open>7\<close>, whose mean is not
  \<open>7\<close> and rounds to \<open>7.1\<close>, while \<open>avgScore\<close> is \<open>7\<close>. It fails in its last part too, for
  the one requested id \<open>__proto__\<close>: the assignment of a number to that property of a
  plain object stores nothing, so \<open>scoreByPreset\<close> has no entry for it.
\<close>

theorem multi_aggregates_counterexample:
  "avgScore (processMultiResult \<lparr>domain = ''golab'', template = ''A+B'', sources = ''A:go, B:lab''\<rparr>
      [''a'' \<mapsto> \<lparr>rawScore = JNumber (706 / 100), rawBucket = Some ''FAST-FLIP'', rawReason = [], rawUseCase = []\<rparr>,
       ''b'' \<mapsto> \<lparr>rawScore = JNumber (706 / 100), rawBucket = Some ''FAST-FLIP'', rawReason = [], rawUseCase = []\<rparr>,
       ''c'' \<mapsto> \<lparr>rawScore = JNumber (697 / 100), rawBucket = Some ''HOLD'', rawReason = [], rawUseCase = []\<rparr>]
      [''a'', ''b'', ''c''] Map.empty) = 7
   \<and> map (scoreByPreset (processMultiResult \<lparr>domain = ''golab'', template = ''A+B'', sources = ''A:go, B:lab''\<rparr>
      [''a'' \<mapsto> \<lparr>rawScore = JNumber (706 / 100), rawBucket = Some ''FAST-FLIP'', rawReason = [], rawUseCase = []\<rparr>,
       ''b'' \<mapsto> \<lparr>rawScore = JNumber (706 / 100), rawBucket = Some ''FAST-FLIP'', rawReason = [], rawUseCase = []\<rparr>,
       ''c'' \<mapsto> \<lparr>rawScore = JNumber (697 / 100), rawBucket = Some ''HOLD'', rawReason = [], rawUseCase = []\<rparr>]
      [''a'', ''b'', ''c''] Map.empty)) [''a'', ''b'', ''c'']
     = [Some (nearestDouble (71 / 10)), Some (nearestDouble (71 / 10)), Some 7]
   \<and> average [nearestDouble (71 / 10), nearestDouble (71 / 10), 7] \<noteq> 7
   \<and> round1 (average [nearestDouble (71 / 10), nearestDouble (71 / 10), 7]) = nearestDouble (71 / 10)
   \<and> nearestDouble (71 / 10) \<noteq> 7
   \<and> scoreByPreset (processMultiResult \<lparr>domain = ''golab'', template = ''A+B'', sources = ''A:go, B:lab''\<rparr>
      [''__proto__'' \<mapsto> \<lparr>rawScore = JNumber (15 / 2), rawBucket = Some ''HOLD'', rawReason = [], rawUseCase = []\<rparr>]
      [''__proto__''] Map.empty) ''__proto__'' = None"
  by code_simp

text \<open>
  Claim C7, amended. For every candidate and every non-empty list of requested persona
  ids: \<open>avgScore\<close> is the mean of the personas' clamped scores before rounding (one per
  position of the list, summed from the left and divided by their number, in double
  precision), after \<open>Math.round(x * 10) / 10\<close>; \<open>bestScore\<close> is the greatest clamped
  score after \<open>Math.round(x * 10) / 10\<close>, which is the maximum over the personas of
  their rounded scores; \<open>bestPresetId\<close> is the earliest persona of the list whose
  clamped score, before rounding, is the greatest. The keys of \<open>scoreByPreset\<close> are
  requested ids, and every requested id other than \<open>__proto__\<close> has an entry, the
  persona's clamped score after \<open>Math.round(x * 10) / 10\<close>, which comes from the score
  \<open>0\<close> for a persona the oracle omits. When \<open>__proto__\<close> is not requested, the keys are
  exactly the requested ids and \<open>bestScore\<close> is the maximum of the values of
  \<open>scoreByPreset\<close>.
\<close>

theorem multi_aggregates:
  assumes "presetIds \<noteq> []"
  shows "(let r = processMultiResult c byPreset presetIds presetMap;
              sc = presetScore byPreset in
          avgScore r = round1 (average (map sc presetIds))
        \<and> bestScore r = round1 (Max (sc ` set presetIds))
        \<and> bestScore r = Max ((\<lambda>p. round1 (sc p)) ` set presetIds)
        \<and> bestPresetId r = find (\<lambda>p. sc p = Max (sc ` set presetIds)) presetIds
        \<and> dom (scoreByPreset r) \<subseteq> set presetIds
        \<and> (\<forall>p \<in> set presetIds. p \<noteq> ''__proto__'' \<longrightarrow> scoreByPreset r p = Some (round1 (sc p)))
        \<and> (''__proto__'' \<notin> set presetIds \<longrightarrow>
             dom (scoreByPreset r) = set presetIds \<and> bestScore r = Max (ran (scoreByPreset r)))
        \<and> (\<forall>p. byPreset p = None \<longrightarrow> sc p = 0))"
proof -
  define sc where "sc = presetScore byPreset"
  define r where "r = processMultiResult c byPreset presetIds presetMap"
  have sbp: "scoreByPreset r =
      (\<lambda>q. if q \<in> set presetIds \<and> q \<noteq> ''__proto__'' then Some (round1 (sc q)) else None)"
    unfolding sc_def r_def
    by (simp add: processMultiResult_def Let_def personaLoop_scoreByPreset)
  have avg: "avgScore r = round1 (average (map sc presetIds))"
    by (simp add: r_def processMultiResult_def Let_def personaLoop_scores sc_def)
  have best: "bestScore r = round1 (Max (sc ` set presetIds))"
    by (simp add: r_def processMultiResult_def Let_def personaLoop_bestScore
        Max_scores [OF assms] sc_def)
  have nonneg: "\<forall>x \<in> sc ` set presetIds. 0 \<le> x" by (auto simp: sc_def presetScore_range)
  have "mono_on {0..} round1" by (auto simp: mono_on_def round1_mono)
  have commute: "round1 (Max (sc ` set presetIds)) = Max (round1 ` (sc ` set presetIds))"
  proof (rule antisym)
    have "Max (sc ` set presetIds) \<in> sc ` set presetIds" using assms by (intro Max_in) simp_all
    then show "round1 (Max (sc ` set presetIds)) \<le> Max (round1 ` (sc ` set presetIds))"
      by (intro Max_ge) simp_all
    show "Max (round1 ` (sc ` set presetIds)) \<le> round1 (Max (sc ` set presetIds))"
    proof (rule Max.boundedI)
      show "finite (round1 ` sc ` set presetIds)" by simp
      show "round1 ` sc ` set presetIds \<noteq> {}" using assms by simp
      fix a assume "a \<in> round1 ` sc ` set presetIds"
      then obtain x where x: "x \<in> sc ` set presetIds" "a = round1 x" by blast
      then have "x \<le> Max (sc ` set presetIds)" by simp
      moreover from x nonneg have "0 \<le> x" by blast
      ultimately show "a \<le> round1 (Max (sc ` set presetIds))"
        unfolding x(2) by (intro round1_mono)
    qed
  qed
  then have best_img: "bestScore r = Max ((\<lambda>p. round1 (sc p)) ` set presetIds)"
    by (simp add: best image_image)
  have winner: "bestPresetId r = find (\<lambda>p. sc p = Max (sc ` set presetIds)) presetIds"
    by (simp add: r_def processMultiResult_def Let_def personaLoop_bestPresetId [OF assms] sc_def)
  have dom_sub: "dom (scoreByPreset r) \<subseteq> set presetIds"
    by (auto simp: sbp dom_def split: if_splits)
  have entries: "\<forall>p \<in> set presetIds. p \<noteq> ''__proto__'' \<longrightarrow> scoreByPreset r p = Some (round1 (sc p))"
    by (simp add: sbp)
  have plain: "''__proto__'' \<notin> set presetIds \<longrightarrow>
      dom (scoreByPreset r) = set presetIds \<and> bestScore r = Max (ran (scoreByPreset r))"
  proof
    assume no: "''__proto__'' \<notin> set presetIds"
    then have d: "dom (scoreByPreset r) = set presetIds"
      by (auto simp: sbp dom_def split: if_splits)
    from no have "ran (scoreByPreset r) = (\<lambda>p. round1 (sc p)) ` set presetIds"
      by (auto simp: sbp ran_def image_iff split: if_splits)
    with d best_img
    show "dom (scoreByPreset r) = set presetIds \<and> bestScore r = Max (ran (scoreByPreset r))"
      by simp
  qed
  have omitted: "\<forall>p. byPreset p = None \<longrightarrow> sc p = 0"
    by (simp add: sc_def presetScore_def presetResult_def emptyAssessment_def clampScore_def)
  from avg best best_img winner dom_sub entries plain omitted show ?thesis
    unfolding Let_def r_def [symmetric] sc_def [symmetric] by blast
qed

theorem multi_aggregates_witness:
  "[''a'', ''b'', ''c''] \<noteq> ([] :: string list)
   \<and> avgScore (processMultiResult \<lparr>domain = ''golab'', template = ''A+B'', sources = ''A:go, B:lab''\<rparr>
      [''a'' \<mapsto> \<lparr>rawScore = JNumber (706 / 100), rawBucket = Some ''FAST-FLIP'', rawReason = [], rawUseCase = []\<rparr>,
       ''b'' \<mapsto> \<lparr>rawScore = JNumber (706 / 100), rawBucket = Some ''FAST-FLIP'', rawReason = [], rawUseCase = []\<rparr>,
       ''c'' \<mapsto> \<lparr>rawScore = JNumber (697 / 100), rawBucket = Some ''HOLD'', rawReason = [], rawUseCase = []\<rparr>]
      [''a'', ''b'', ''c''] Map.empty) = 7
   \<and> bestScore (processMultiResult \<lparr>domain = ''golab'', template = ''A+B'', sources = ''A:go, B:lab''\<rparr>
      [''a'' \<mapsto> \<lparr>rawScore = JNumber (706 / 100), rawBucket = Some ''FAST-FLIP'', rawReason = [], rawUseCase = []\<rparr>,
       ''b'' \<mapsto> \<lparr>rawScore = JNumber (706 / 100), rawBucket = Some ''FAST-FLIP'', rawReason = [], rawUseCase = []\<rparr>,
       ''c'' \<mapsto> \<lparr>rawScore = JNumber (697 / 100), rawBucket = Some ''HOLD'', rawReason = [], rawUseCase = []\<rparr>]
      [''a'', ''b'', ''c''] Map.empty) = nearestDouble (71 / 10)
   \<and> bestPresetId (processMultiResult \<lparr>domain = ''golab'', template = ''A+B'', sources = ''A:go, B:lab''\<rparr>
      [''a'' \<mapsto> \<lparr>rawScore = JNumber (706 / 100), rawBucket = Some ''FAST-FLIP'', rawReason = [], rawUseCase = []\<rparr>,
       ''b'' \<mapsto> \<lparr>rawScore = JNumber (706 / 100), rawBucket = Some ''FAST-FLIP'', rawReason = [], rawUseCase = []\<rparr>,
       ''c'' \<mapsto> \<lparr>rawScore = JNumber (697 / 100), rawBucket = Some ''HOLD'', rawReason = [], rawUseCase = []\<rparr>]
      [''a'', ''b'', ''c''] Map.empty) = Some ''a''"
proof -
  define bp :: "string \<rightharpoonup> assessment" where "bp =
      [''a'' \<mapsto> \<lparr>rawScore = JNumber (706 / 100), rawBucket = Some ''FAST-FLIP'', rawReason = [], rawUseCase = []\<rparr>,
       ''b'' \<mapsto> \<lparr>rawScore = JNumber (706 / 100), rawBucket = Some ''FAST-FLIP'', rawReason = [], rawUseCase = []\<rparr>,
       ''c'' \<mapsto> \<lparr>rawScore = JNumber (697 / 100), rawBucket = Some ''HOLD'', rawReason = [], rawUseCase = []\<rparr>]"
  define cand where "cand = \<lparr>domain = ''golab'', template = ''A+B'', sources = ''A:go, B:lab''\<rparr>"
  define hi where "hi = nearestDouble (706 / 100)"
  define lo where "lo = nearestDouble (697 / 100)"
  have ne: "[''a'', ''b'', ''c''] \<noteq> ([] :: string list)" by simp
  have sc: "presetScore bp ''a'' = hi" "presetScore bp ''b'' = hi" "presetScore bp ''c'' = lo"
    unfolding bp_def hi_def lo_def by code_simp+
  have order: "lo \<le> hi"
    unfolding hi_def lo_def by (intro nearestDouble_mono) simp_all
  have rounded: "round1 (average [hi, hi, lo]) = 7" "round1 hi = nearestDouble (71 / 10)"
    unfolding hi_def lo_def by code_simp+
  have greatest: "Max (presetScore bp ` set [''a'', ''b'', ''c'']) = hi"
    using order by (simp add: sc max_def)
  from multi_aggregates [OF ne, of cand bp Map.empty]
  have "avgScore (processMultiResult cand bp [''a'', ''b'', ''c''] Map.empty) = 7
    \<and> bestScore (processMultiResult cand bp [''a'', ''b'', ''c''] Map.empty) = nearestDouble (71 / 10)
    \<and> bestPresetId (processMultiResult cand bp [''a'', ''b'', ''c''] Map.empty) = Some ''a''"
    unfolding Let_def greatest by (simp add: sc rounded)
  with ne show ?thesis unfolding bp_def cand_def by simp
qed

text \<open>
  Claim C4, as stated, fails in its example: for two personas scoring \<open>7.5\<close> and \<open>6.0\<close>
  the returned \<open>avgScore\<close> is \<open>6.8\<close> (\<open>Math.round(67.5) / 10\<close>), not \<open>6.75\<close>. The
  thresholds, moreover, are read on the best score before it is rounded: a single
  persona scoring \<open>7.96\<close> with bucket \<open>HOLD\<close> gives a record with \<open>bestScore = 8\<close> and
  bucket \<open>HOLD\<close>.
\<close>

theorem final_bucket_counterexample:
  "avgScore (processMultiResult \<lparr>domain = ''golab'', template = ''A+B'', sources = ''A:go, B:lab''\<rparr>
      [''p1'' \<mapsto> \<lparr>rawScore = JNumber (15 / 2), rawBucket = Some ''HOLD'', rawReason = [], rawUseCase = []\<rparr>,
       ''p2'' \<mapsto> \<lparr>rawScore = JNumber (6), rawBucket = Some ''HOLD'', rawReason = [], rawUseCase = []\<rparr>]
      [''p1'', ''p2''] Map.empty) = nearestDouble (34 / 5)
   \<and> avgScore (processMultiResult \<lparr>domain = ''golab'', template = ''A+B'', sources = ''A:go, B:lab''\<rparr>
      [''p1'' \<mapsto> \<lparr>rawScore = JNumber (15 / 2), rawBucket = Some ''HOLD'', rawReason = [], rawUseCase = []\<rparr>,
       ''p2'' \<mapsto> \<lparr>rawScore = JNumber (6), rawBucket = Some ''HOLD'', rawReason = [], rawUseCase = []\<rparr>]
      [''p1'', ''p2''] Map.empty) \<noteq> 27 / 4
   \<and> bestScore (processMultiResult \<lparr>domain = ''golab'', template = ''A+B'', sources = ''A:go, B:lab''\<rparr>
      [''p1'' \<mapsto> \<lparr>rawScore = JNumber (796 / 100), rawBucket = Some ''HOLD'', rawReason = [], rawUseCase = []\<rparr>]
      [''p1''] Map.empty) = 8
   \<and> bucket (processMultiResult \<lparr>domain = ''golab'', template = ''A+B'', sources = ''A:go, B:lab''\<rparr>
      [''p1'' \<mapsto> \<lparr>rawScore = JNumber (796 / 100), rawBucket = Some ''HOLD'', rawReason = [], rawUseCase = []\<rparr>]
      [''p1''] Map.empty) = HOLD"
  by code_simp

text \<open>
  Claim C4, amended. Let \<open>best\<close> be the greatest clamped persona score (\<open>0\<close> if there is
  none), before rounding; the returned \<open>bestScore\<close> is \<open>Math.round(best * 10) / 10\<close>.
  The returned bucket is \<open>FAST-FLIP\<close> when \<open>best \<ge> 8\<close>; when \<open>7 \<le> best < 8\<close> it is
  \<open>FAST-FLIP\<close> exactly if the bucket reported for the winning persona (the first one
  scoring \<open>best\<close>) is \<open>FAST-FLIP\<close>, and \<open>HOLD\<close> otherwise; when \<open>4 \<le> best < 7\<close> it is
  \<open>HOLD\<close>; otherwise it is \<open>PASS\<close>. For two personas scoring \<open>7.5\<close> and \<open>6.0\<close>, in either
  order, \<open>bestScore = 7.5\<close>, \<open>avgScore = 6.8\<close>, the winner is the persona scoring \<open>7.5\<close>
  and the bucket is \<open>FAST-FLIP\<close> if that persona's bucket is \<open>FAST-FLIP\<close>, else \<open>HOLD\<close>.
\<close>

theorem final_bucket_derivation:
  "(let r = processMultiResult c byPreset presetIds presetMap;
        sc = presetScore byPreset;
        best = Max (insert 0 (sc ` set presetIds)) in
      bestScore r = round1 best
    \<and> (8 \<le> best \<longrightarrow> bucket r = FAST_FLIP)
    \<and> (7 \<le> best \<and> best < 8 \<longrightarrow>
         (\<exists>w. find (\<lambda>p. sc p = best) presetIds = Some w \<and> bestPresetId r = Some w
            \<and> bucket r = (if rawBucket (presetResult byPreset w) = Some ''FAST-FLIP''
                          then FAST_FLIP else HOLD)))
    \<and> (4 \<le> best \<and> best < 7 \<longrightarrow> bucket r = HOLD)
    \<and> (best < 4 \<longrightarrow> bucket r = PASS)
    \<and> (byPreset p1 = Some a1 \<and> rawScore a1 = JNumber (15 / 2) \<and>
       byPreset p2 = Some a2 \<and> rawScore a2 = JNumber 6 \<and>
       (presetIds = [p1, p2] \<or> presetIds = [p2, p1]) \<longrightarrow>
         bestScore r = 15 / 2 \<and> avgScore r = nearestDouble (34 / 5) \<and> bestPresetId r = Some p1
         \<and> bucket r = (if rawBucket a1 = Some ''FAST-FLIP'' then FAST_FLIP else HOLD)))"
proof -
  define r where "r = processMultiResult c byPreset presetIds presetMap"
  define sc where "sc = presetScore byPreset"
  define best where "best = Max (insert 0 (sc ` set presetIds))"
  define st where "st = personaLoop byPreset presetIds"
  have best_st: "curBestScore st = best"
    by (simp add: st_def best_def sc_def personaLoop_bestScore)
  have bucket_r: "bucket r = finalBucket best (curBestBucket st)"
    by (simp add: r_def processMultiResult_bucket st_def [symmetric] best_st)
  have bestScore_r: "bestScore r = round1 best"
    by (simp add: r_def processMultiResult_def Let_def st_def [symmetric] best_st)
  have id_r: "bestPresetId r = curBestPresetId st"
    by (simp add: r_def processMultiResult_def Let_def st_def [symmetric])
  note inv = fold_winner [of byPreset presetIds presetIds, unfolded Let_def,
      folded personaLoop_def, folded st_def, unfolded best_st, folded sc_def]
  have high: "8 \<le> best \<longrightarrow> bucket r = FAST_FLIP"
    by (simp add: bucket_r finalBucket_def)
  have band: "7 \<le> best \<and> best < 8 \<longrightarrow>
       (\<exists>w. find (\<lambda>p. sc p = best) presetIds = Some w \<and> bestPresetId r = Some w
          \<and> bucket r = (if rawBucket (presetResult byPreset w) = Some ''FAST-FLIP''
                        then FAST_FLIP else HOLD))"
  proof
    assume b: "7 \<le> best \<and> best < 8"
    then have "0 < best" by simp
    with inv obtain w where w: "find (\<lambda>q. sc q = best) presetIds = Some w"
      "curBestPresetId st = Some w"
      "curBestBucket st = validBucket (rawBucket (presetResult byPreset w))"
      by blast
    from b have "bucket r = (if curBestBucket st = FAST_FLIP then FAST_FLIP else HOLD)"
      by (simp add: bucket_r finalBucket_def)
    with w show "\<exists>w. find (\<lambda>p. sc p = best) presetIds = Some w \<and> bestPresetId r = Some w
          \<and> bucket r = (if rawBucket (presetResult byPreset w) = Some ''FAST-FLIP''
                        then FAST_FLIP else HOLD)"
      by (simp add: id_r validBucket_FAST_FLIP)
  qed
  have mid: "4 \<le> best \<and> best < 7 \<longrightarrow> bucket r = HOLD"
    by (simp add: bucket_r finalBucket_def)
  have low: "best < 4 \<longrightarrow> bucket r = PASS"
    by (simp add: bucket_r finalBucket_def)
  have scenario: "byPreset p1 = Some a1 \<and> rawScore a1 = JNumber (15 / 2) \<and>
       byPreset p2 = Some a2 \<and> rawScore a2 = JNumber 6 \<and>
       (presetIds = [p1, p2] \<or> presetIds = [p2, p1]) \<longrightarrow>
         bestScore r = 15 / 2 \<and> avgScore r = nearestDouble (34 / 5) \<and> bestPresetId r = Some p1
         \<and> bucket r = (if rawBucket a1 = Some ''FAST-FLIP'' then FAST_FLIP else HOLD)"
    unfolding r_def using two_personas [of byPreset p1 a1 p2 a2 presetIds c presetMap] by blast
  from bestScore_r high band mid low scenario show ?thesis
    unfolding Let_def r_def [symmetric] sc_def [symmetric] best_def [symmetric] by blast
qed

theorem final_bucket_derivation_witness:
  "bucket (processMultiResult \<lparr>domain = ''golab'', template = ''A+B'', sources = ''A:go, B:lab''\<rparr>
      [''p1'' \<mapsto> \<lparr>rawScore = JNumber (15 / 2), rawBucket = Some ''FAST-FLIP'', rawReason = [], rawUseCase = []\<rparr>,
       ''p2'' \<mapsto> \<lparr>rawScore = JNumber (6), rawBucket = Some ''HOLD'', rawReason = [], rawUseCase = []\<rparr>]
      [''p1'', ''p2''] Map.empty) = FAST_FLIP
   \<and> bestScore (processMultiResult \<lparr>domain = ''golab'', template = ''A+B'', sources = ''A:go, B:lab''\<rparr>
      [''p1'' \<mapsto> \<lparr>rawScore = JNumber (15 / 2), rawBucket = Some ''FAST-FLIP'', rawReason = [], rawUseCase = []\<rparr>,
       ''p2'' \<mapsto> \<lparr>rawScore = JNumber (6), rawBucket = Some ''HOLD'', rawReason = [], rawUseCase = []\<rparr>]
      [''p1'', ''p2''] Map.empty) = 15 / 2
   \<and> avgScore (processMultiResult \<lparr>domain = ''golab'', template = ''A+B'', sources = ''A:go, B:lab''\<rparr>
      [''p1'' \<mapsto> \<lparr>rawScore = JNumber (15 / 2), rawBucket = Some ''FAST-FLIP'', rawReason = [], rawUseCase = []\<rparr>,
       ''p2'' \<mapsto> \<lparr>rawScore = JNumber (6), rawBucket = Some ''HOLD'', rawReason = [], rawUseCase = []\<rparr>]
      [''p1'', ''p2''] Map.empty) = nearestDouble (34 / 5)"
  using final_bucket_derivation [of
      "\<lparr>domain = ''golab'', template = ''A+B'', sources = ''A:go, B:lab''\<rparr>"
      "[''p1'' \<mapsto> \<lparr>rawScore = JNumber (15 / 2), rawBucket = Some ''FAST-FLIP'', rawReason = [], rawUseCase = []\<rparr>,
       ''p2'' \<mapsto> \<lparr>rawScore = JNumber (6), rawBucket = Some ''HOLD'', rawReason = [], rawUseCase = []\<rparr>]"
      "[''p1'', ''p2'']" Map.empty
      "''p1''" "\<lparr>rawScore = JNumber (15 / 2), rawBucket = Some ''FAST-FLIP'', rawReason = [], rawUseCase = []\<rparr>"
      "''p2''" "\<lparr>rawScore = JNumber (6), rawBucket = Some ''HOLD'', rawReason = [], rawUseCase = []\<rparr>"]
  by (simp add: Let_def)

subsection \<open>The matching key\<close>

text \<open>
  Claim C8 at the entry \<open>"my.company.com"\<close>: the key built by the code is
  \<open>"mypany.com"\<close>, the first occurrence of \<open>".com"\<close> being removed instead of the final
  one; an entry \<open>"tr.comust"\<close> gets the key of the candidate \<open>trust\<close>. A final \<open>".com"\<close>
  after a name without dots is removed, and an upper-case \<open>".COM"\<close> is kept.
\<close>

theorem scoreKey_interior_occurrence:
  "scoreKey ''my.company.com'' = ''mypany.com''
   \<and> scoreKey ''my.company.com'' \<noteq> ''my.company''
   \<and> scoreKey ''tr.comust'' = ''trust''
   \<and> scoreKey ''Golab.com'' = ''golab''
   \<and> scoreKey ''golab.COM'' = ''golab.com''"
  by code_simp


subsection \<open>Ranking and truncation\<close>

text \<open>The sort keeps the elements and orders them by the relation that the comparison
  function decides.\<close>

lemma mset_insertBy: "mset (insertBy cmp x ys) = add_mset x (mset ys)"
  by (induction ys) simp_all

lemma mset_sortBy: "mset (sortBy cmp xs) = mset xs"
  by (induction xs) (simp_all add: sortBy_def mset_insertBy)

lemma set_insertBy: "set (insertBy cmp x ys) = insert x (set ys)"
  using mset_insertBy [of cmp x ys, THEN arg_cong, of set_mset] by simp

lemma sorted_insertBy:
  assumes total: "\<And>a b. le a b \<or> le b a"
    and trans: "\<And>a b c. le a b \<Longrightarrow> le b c \<Longrightarrow> le a c"
    and cmp: "\<And>a b. (cmp a b \<le> 0) = le a b"
    and sorted: "sorted_wrt le ys"
  shows "sorted_wrt le (insertBy cmp x ys)"
  using sorted
proof (induction ys)
  case Nil
  then show ?case by simp
next
  case (Cons y ys)
  show ?case
  proof (cases "le x y")
    case True
    with Cons.prems have "\<forall>z \<in> set (y # ys). le x z" using trans by auto
    with True Cons.prems show ?thesis by (simp add: cmp)
  next
    case False
    with total have "le y x" by blast
    with False Cons show ?thesis by (simp add: cmp set_insertBy)
  qed
qed

lemma sorted_sortBy:
  assumes "\<And>a b. le a b \<or> le b a"
    and "\<And>a b c. le a b \<Longrightarrow> le b c \<Longrightarrow> le a c"
    and "\<And>a b. (cmp a b \<le> 0) = le a b"
  shows "sorted_wrt le (sortBy cmp xs)"
proof (induction xs)
  case Nil
  then show ?case by (simp add: sortBy_def)
next
  case (Cons x xs)
  have "sortBy cmp (x # xs) = insertBy cmp x (sortBy cmp xs)" by (simp add: sortBy_def)
  with Cons sorted_insertBy [of le cmp "sortBy cmp xs" x, OF assms] show ?case by simp
qed

lemma sorted_take_drop:
  assumes "sorted_wrt le zs" and "a \<in> set (take n zs)" and "b \<in> set (drop n zs)"
  shows "le a b"
proof -
  from assms(1) have "sorted_wrt le (take n zs @ drop n zs)" by simp
  with assms(2,3) show ?thesis unfolding sorted_wrt_append by blast
qed

lemma left_out:
  assumes "mset zs = mset xs"
  shows "mset xs - mset (take n zs) = mset (drop n zs)"
proof -
  have "mset (take n zs) + mset (drop n zs) = mset xs"
    using assms by (simp flip: mset_append)
  then show ?thesis by (metis add_diff_cancel_left')
qed

lemma sorted_single: "sorted_wrt (\<lambda>a b. score b \<le> score a) (sortBy cmpSingle xs)"
  by (rule sorted_sortBy) (auto simp: cmpSingle_def)

lemma sorted_multi:
  "sorted_wrt (\<lambda>a b. bestScore b < bestScore a \<or> (bestScore b = bestScore a \<and> avgScore b \<le> avgScore a))
     (sortBy cmpMulti ys)"
  by (rule sorted_sortBy) (auto simp: cmpMulti_def)

lemma limitedTopK_pos: "0 < k \<Longrightarrow> limitedTopK (Some k) = min k 300"
  by (simp add: limitedTopK_def MAX_TOPK_def)

lemma sliceTo_take: "0 \<le> k \<Longrightarrow> sliceTo arr k = take (nat k) arr"
  by (simp add: sliceTo_def)

lemma rankSingle_take:
  "0 < k \<Longrightarrow> rankSingle (Some k) xs = take (nat (min k 300)) (sortBy cmpSingle xs)"
  by (simp add: rankSingle_def limitedTopK_pos sliceTo_take)

lemma rankMulti_take:
  "0 < k \<Longrightarrow> rankMulti (Some k) ys = take (nat (min k 300)) (sortBy cmpMulti ys)"
  by (simp add: rankMulti_def limitedTopK_pos sliceTo_take)

lemma length_sortBy: "length (sortBy cmp xs) = length xs"
  using mset_sortBy [of cmp xs, THEN arg_cong, of size] by simp


lemma limitedTopK_other:
  "limitedTopK None = 100" "limitedTopK (Some 0) = 100" "j < 0 \<Longrightarrow> limitedTopK (Some j) = j"
  by (simp_all add: limitedTopK_def MAX_TOPK_def)

text \<open>
  Claim C9, as stated, fails for a requested \<open>topK\<close> below 1: the handler computes
  \<open>Math.min(topK || 100, 300)\<close> and slices with it. With \<open>topK = 0\<close> it returns up to 100
  results, not \<open>min(0, 300) = 0\<close>; with \<open>topK = -1\<close> it returns all results but the last.
\<close>

theorem ranking_truncation_counterexample:
  "map score (rankSingle (Some 0)
        [\<lparr>r_domain = ''a'', bucket = HOLD, reason = [], use_case = [], templateUsed = Some ''A+B'',
          r_template = None, r_sources = [], score = 5\<rparr>,
         \<lparr>r_domain = ''b'', bucket = FAST_FLIP, reason = [], use_case = [], templateUsed = Some ''A+B'',
          r_template = None, r_sources = [], score = 9\<rparr>,
         \<lparr>r_domain = ''c'', bucket = PASS, reason = [], use_case = [], templateUsed = Some ''A+B'',
          r_template = None, r_sources = [], score = 3\<rparr>]) = [9, 5, 3]
   \<and> min (0::int) 300 = 0
   \<and> map score (rankSingle (Some (- 1))
        [\<lparr>r_domain = ''a'', bucket = HOLD, reason = [], use_case = [], templateUsed = Some ''A+B'',
          r_template = None, r_sources = [], score = 5\<rparr>,
         \<lparr>r_domain = ''b'', bucket = FAST_FLIP, reason = [], use_case = [], templateUsed = Some ''A+B'',
          r_template = None, r_sources = [], score = 9\<rparr>,
         \<lparr>r_domain = ''c'', bucket = PASS, reason = [], use_case = [], templateUsed = Some ''A+B'',
          r_template = None, r_sources = [], score = 3\<rparr>]) = [9, 5]"
  by code_simp

text \<open>
  Claim C9, amended. For a requested \<open>topK\<close> of at least 1, the handler returns the first
  \<open>min(topK, 300)\<close> elements of the sorted list of all scores. The sorted list has the
  elements of the scored list; in single-persona mode it is descending by \<open>score\<close>, in
  multi-persona mode descending by \<open>bestScore\<close> and, among equal \<open>bestScore\<close>,
  descending by \<open>avgScore\<close>. So the number of results is the smaller of
  \<open>min(topK, 300)\<close> and the number of scored candidates, and no scored candidate that is
  left out ranks above a returned one. With \<open>topK = 5\<close> and 20 scored candidates
  exactly 5 results are returned, the 5 highest. A request without \<open>topK\<close>, or with
  \<open>topK = 0\<close>, gets the first 100 elements of the sorted list, and a negative \<open>topK\<close>
  gets the sorted list without its last \<open>-topK\<close> elements.
\<close>

theorem ranking_truncation:
  assumes "0 < k"
  shows "rankSingle (Some k) xs = take (nat (min k 300)) (sortBy cmpSingle xs)
    \<and> rankMulti (Some k) ys = take (nat (min k 300)) (sortBy cmpMulti ys)
    \<and> mset (sortBy cmpSingle xs) = mset xs
    \<and> mset (sortBy cmpMulti ys) = mset ys
    \<and> sorted_wrt (\<lambda>a b. score b \<le> score a) (sortBy cmpSingle xs)
    \<and> sorted_wrt (\<lambda>a b. bestScore b < bestScore a \<or>
          (bestScore b = bestScore a \<and> avgScore b \<le> avgScore a)) (sortBy cmpMulti ys)
    \<and> length (rankSingle (Some k) xs) = min (nat (min k 300)) (length xs)
    \<and> length (rankMulti (Some k) ys) = min (nat (min k 300)) (length ys)
    \<and> (\<forall>a \<in> set (rankSingle (Some k) xs).
         \<forall>b \<in># mset xs - mset (rankSingle (Some k) xs). score b \<le> score a)
    \<and> (\<forall>a \<in> set (rankMulti (Some k) ys).
         \<forall>b \<in># mset ys - mset (rankMulti (Some k) ys).
           bestScore b < bestScore a \<or> (bestScore b = bestScore a \<and> avgScore b \<le> avgScore a))
    \<and> (k = 5 \<and> length xs = 20 \<longrightarrow> length (rankSingle (Some k) xs) = 5)
    \<and> (k = 5 \<and> length ys = 20 \<longrightarrow> length (rankMulti (Some k) ys) = 5)
    \<and> rankSingle None xs = take 100 (sortBy cmpSingle xs)
    \<and> rankMulti None ys = take 100 (sortBy cmpMulti ys)
    \<and> rankSingle (Some 0) xs = take 100 (sortBy cmpSingle xs)
    \<and> rankMulti (Some 0) ys = take 100 (sortBy cmpMulti ys)
    \<and> (j < 0 \<longrightarrow> rankSingle (Some j) xs = take (length xs - nat (- j)) (sortBy cmpSingle xs))
    \<and> (j < 0 \<longrightarrow> rankMulti (Some j) ys = take (length ys - nat (- j)) (sortBy cmpMulti ys))"
proof -
  note rs = rankSingle_take [OF assms, of xs] and rm = rankMulti_take [OF assms, of ys]
  have len_s: "length (rankSingle (Some k) xs) = min (nat (min k 300)) (length xs)"
    by (simp add: rs length_sortBy min.commute)
  have len_m: "length (rankMulti (Some k) ys) = min (nat (min k 300)) (length ys)"
    by (simp add: rm length_sortBy min.commute)
  have top_s: "\<forall>a \<in> set (rankSingle (Some k) xs).
         \<forall>b \<in># mset xs - mset (rankSingle (Some k) xs). score b \<le> score a"
    unfolding rs left_out [OF mset_sortBy]
    using sorted_take_drop [OF sorted_single] by fastforce
  have top_m: "\<forall>a \<in> set (rankMulti (Some k) ys).
         \<forall>b \<in># mset ys - mset (rankMulti (Some k) ys).
           bestScore b < bestScore a \<or> (bestScore b = bestScore a \<and> avgScore b \<le> avgScore a)"
    unfolding rm left_out [OF mset_sortBy]
    using sorted_take_drop [OF sorted_multi] by fastforce
  have five_s: "k = 5 \<and> length xs = 20 \<longrightarrow> length (rankSingle (Some k) xs) = 5"
    using len_s by auto
  have five_m: "k = 5 \<and> length ys = 20 \<longrightarrow> length (rankMulti (Some k) ys) = 5"
    using len_m by auto
  have dflt: "rankSingle None xs = take 100 (sortBy cmpSingle xs)"
    "rankMulti None ys = take 100 (sortBy cmpMulti ys)"
    "rankSingle (Some 0) xs = take 100 (sortBy cmpSingle xs)"
    "rankMulti (Some 0) ys = take 100 (sortBy cmpMulti ys)"
    by (simp_all add: rankSingle_def rankMulti_def limitedTopK_other sliceTo_def)
  have neg_s: "j < 0 \<longrightarrow> rankSingle (Some j) xs = take (length xs - nat (- j)) (sortBy cmpSingle xs)"
  proof
    assume j: "j < 0"
    then have "nat (int (length xs) + j) = length xs - nat (- j)" by linarith
    with j show "rankSingle (Some j) xs = take (length xs - nat (- j)) (sortBy cmpSingle xs)"
      by (simp add: rankSingle_def limitedTopK_other sliceTo_def length_sortBy)
  qed
  have neg_m: "j < 0 \<longrightarrow> rankMulti (Some j) ys = take (length ys - nat (- j)) (sortBy cmpMulti ys)"
  proof
    assume j: "j < 0"
    then have "nat (int (length ys) + j) = length ys - nat (- j)" by linarith
    with j show "rankMulti (Some j) ys = take (length ys - nat (- j)) (sortBy cmpMulti ys)"
      by (simp add: rankMulti_def limitedTopK_other sliceTo_def length_sortBy)
  qed
  from rs rm mset_sortBy [of cmpSingle xs] mset_sortBy [of cmpMulti ys]
    sorted_single [of xs] sorted_multi [of ys] len_s len_m top_s top_m five_s five_m
    dflt neg_s neg_m
  show ?thesis by blast
qed

theorem ranking_truncation_witness:
  "(0::int) < 2
   \<and> map score (rankSingle (Some 2)
        [\<lparr>r_domain = ''a'', bucket = HOLD, reason = [], use_case = [], templateUsed = Some ''A+B'',
          r_template = None, r_sources = [], score = 5\<rparr>,
         \<lparr>r_domain = ''b'', bucket = FAST_FLIP, reason = [], use_case = [], templateUsed = Some ''A+B'',
          r_template = None, r_sources = [], score = 9\<rparr>,
         \<lparr>r_domain = ''c'', bucket = PASS, reason = [], use_case = [], templateUsed = Some ''A+B'',
          r_template = None, r_sources = [], score = 3\<rparr>]) = [9, 5]
   \<and> length (rankSingle (Some 2)
        [\<lparr>r_domain = ''a'', bucket = HOLD, reason = [], use_case = [], templateUsed = Some ''A+B'',
          r_template = None, r_sources = [], score = 5\<rparr>,
         \<lparr>r_domain = ''b'', bucket = FAST_FLIP, reason = [], use_case = [], templateUsed = Some ''A+B'',
          r_template = None, r_sources = [], score = 9\<rparr>,
         \<lparr>r_domain = ''c'', bucket = PASS, reason = [], use_case = [], templateUsed = Some ''A+B'',
          r_template = None, r_sources = [], score = 3\<rparr>]) = 2"
proof -
  define xs where "xs =
        [\<lparr>r_domain = ''a'', bucket = HOLD, reason = [], use_case = [], templateUsed = Some ''A+B'',
          r_template = None, r_sources = [], score = 5\<rparr>,
         \<lparr>r_domain = ''b'', bucket = FAST_FLIP, reason = [], use_case = [], templateUsed = Some ''A+B'',
          r_template = None, r_sources = [], score = 9\<rparr>,
         \<lparr>r_domain = ''c'', bucket = PASS, reason = [], use_case = [], templateUsed = Some ''A+B'',
          r_template = None, r_sources = [], score = 3\<rparr>]"
  have pos: "(0::int) < 2" by simp
  have sorted: "map score (sortBy cmpSingle xs) = [9, 5, 3]"
    unfolding xs_def by code_simp
  from ranking_truncation [OF pos, of xs "[]"]
  have "rankSingle (Some 2) xs = take (nat (min 2 300)) (sortBy cmpSingle xs)"
    and "length (rankSingle (Some 2) xs) = min (nat (min 2 300)) (length xs)"
    by blast+
  then have "map score (rankSingle (Some 2) xs) = [9, 5]" "length (rankSingle (Some 2) xs) = 2"
    using sorted by (simp_all add: take_map [symmetric] xs_def)
  then show ?thesis unfolding xs_def by simp
qed

end
